theory Spec2Isabelle
  imports Main "HOL-Library.Word" "HOL-Library.List_Lexorder" "HOL-Library.Char_ord"
begin

section \<open>Common types\<close>

type_synonym u8 = "8 word"
type_synonym u64 = "64 word"
type_synonym bytes = "u8 list"

text \<open>
  The outcome of a call that may hit an \<^verbatim>\<open>OSP_CHECK\<close> (which aborts the process) or
  read outside a buffer (undefined behaviour in C++), besides returning normally.
\<close>

datatype 'a outcome = Returns 'a | CheckFailed | UndefinedBehaviour

section \<open>ByteView (platform/base/byte_view.h)\<close>

text \<open>
  A \<^verbatim>\<open>ByteView\<close> holds a pointer and a \<^verbatim>\<open>size_t\<close> count. The pointer is modelled as a
  64-bit address, so that pointer arithmetic is word arithmetic; the fields \<^verbatim>\<open>data_\<close> and
  \<^verbatim>\<open>count_\<close> are \<open>bv_data\<close> and \<open>bv_count\<close>. Each member function
  with an \<^verbatim>\<open>assert\<close> returns \<open>None\<close> where the assertion fails.
\<close>

record ByteView =
  bv_data :: u64
  bv_count :: u64

definition ByteView_default :: ByteView where
  "ByteView_default = \<lparr>bv_data = 0, bv_count = 0\<rparr>"

definition size_bv :: "ByteView \<Rightarrow> u64" where
  "size_bv v = bv_count v"

definition empty_bv :: "ByteView \<Rightarrow> bool" where
  "empty_bv v = (bv_count v = 0)"

definition first_bv :: "ByteView \<Rightarrow> u64 \<Rightarrow> ByteView option" where
  "first_bv v count =
     (if count \<le> bv_count v then Some \<lparr>bv_data = bv_data v, bv_count = count\<rparr> else None)"

definition last_bv :: "ByteView \<Rightarrow> u64 \<Rightarrow> ByteView option" where
  "last_bv v count =
     (if \<not> count \<le> bv_count v then None
      else if \<not> count \<noteq> 0 then None
      else Some \<lparr>bv_data = bv_data v + (bv_count v - count), bv_count = count\<rparr>)"

definition remove_prefix :: "ByteView \<Rightarrow> u64 \<Rightarrow> ByteView option" where
  "remove_prefix v count =
     (if bv_count v \<ge> count
      then Some \<lparr>bv_data = bv_data v + count, bv_count = bv_count v - count\<rparr> else None)"

definition remove_suffix :: "ByteView \<Rightarrow> u64 \<Rightarrow> ByteView option" where
  "remove_suffix v count =
     (if bv_count v \<ge> count then Some (v\<lparr>bv_count := bv_count v - count\<rparr>) else None)"

definition subspan :: "ByteView \<Rightarrow> u64 \<Rightarrow> u64 \<Rightarrow> ByteView option" where
  "subspan v offset count =
     (if offset + count < bv_count v
      then Some \<lparr>bv_data = bv_data v + offset, bv_count = count\<rparr> else None)"

section \<open>SPAKE2 authentication (osp/public/authentication_base, authentication_bob)\<close>

subsection \<open>Messages and errors\<close>

datatype ErrorCode =
  kNoActiveConnection | kCborIncompleteMessage | kCborParsing | kInvalidAnswer

text \<open>An \<^verbatim>\<open>Error\<close> is a code and a message; built from a code alone, the message is empty.\<close>

record Error =
  code :: ErrorCode
  message :: string

definition Error_of_code :: "ErrorCode \<Rightarrow> Error" where
  "Error_of_code c = \<lparr>code = c, message = []\<rparr>"

text \<open>
  Modelled from the spec: the message structs and enum values are generated from the
  CDDL schema, which is not part of the sources at hand. The spec gives
  \<^verbatim>\<open>psk_status: enum{NeedsPresentation=0, Shown=1, Input=2}\<close> and
  \<^verbatim>\<open>result: enum{Authenticated=0, ProofInvalid=1, UnknownError=2}\<close>. The generated enums
  are \<^verbatim>\<open>enum ... : uint64_t\<close> and the generated decoder stores the received integer
  without validating it against the members (tools/cddl/codegen.cc), so a decoded
  enum field is any 64-bit value.
\<close>

definition kPskNeedsPresentation :: u64 where "kPskNeedsPresentation = 0"
definition kPskShown :: u64 where "kPskShown = 1"
definition kPskInput :: u64 where "kPskInput = 2"

definition kAuthenticated :: u64 where "kAuthenticated = 0"
definition kProofInvalid :: u64 where "kProofInvalid = 1"
definition kUnknownError :: u64 where "kUnknownError = 2"

record AuthInitiationToken =
  has_token :: bool
  token :: string

record AuthSpake2Handshake =
  initiation_token :: AuthInitiationToken
  psk_status :: u64
  public_value :: bytes

text \<open>
  \<^verbatim>\<open>confirmation_value\<close> is initialised from the \<^verbatim>\<open>std::array<uint8_t, 64>\<close> that
  \<^verbatim>\<open>ComputeSharedKey\<close> returns, so it is an array of 64 bytes; the model keeps it as a
  byte list and the properties below state its length.
\<close>

record AuthSpake2Confirmation =
  confirmation_value :: bytes

record AuthStatus =
  result :: u64

datatype MsgType =
  kAuthSpake2Handshake | kAuthSpake2Confirmation | kAuthStatus | kOtherType u64

subsection \<open>The libraries the authentication code calls\<close>

text \<open>
  The CBOR decoders are generated code, and base64 and the elliptic-curve and hash
  primitives belong to libraries outside the sources at hand. They are parameters of
  the model. A decoder returns the \<^verbatim>\<open>ssize_t\<close> result and the message it filled in.
  An \<^verbatim>\<open>EC_POINT\<close> is an opaque pair of coordinates; a \<^verbatim>\<open>BIGNUM\<close> is a natural number.

  An \<^verbatim>\<open>EC_KEY\<close> is made by \<^verbatim>\<open>EC_KEY_new_by_curve_name\<close> for a named curve, and every
  operation on the key or on its group works on that curve: each elliptic-curve
  parameter takes the curve of the key as its first argument.
  \<open>EC_KEY_new_by_curve_name\<close> says whether a key for the curve is returned.
  \<open>ECDH_compute_key\<close> takes the curve and the private scalar of the key and the peer's
  point, and gives the \<^verbatim>\<open>int\<close> it returns together with the contents of the output
  buffer. \<^verbatim>\<open>BN_bin2bn\<close> and \<^verbatim>\<open>EC_POINT_new\<close> fail only when memory is exhausted, which the
  model leaves out.
\<close>

type_synonym EC_POINT = "nat \<times> nat"

text \<open>The named curves of the library; \<^verbatim>\<open>NID_X9_62_prime256v1\<close> is NIST P-256.\<close>

datatype curve_nid =
  NID_secp224r1 | NID_X9_62_prime256v1 | NID_secp384r1 | NID_secp521r1

record externals =
  DecodeAuthSpake2Handshake :: "bytes \<Rightarrow> int \<times> AuthSpake2Handshake"
  DecodeAuthSpake2Confirmation :: "bytes \<Rightarrow> int \<times> AuthSpake2Confirmation"
  DecodeAuthStatus :: "bytes \<Rightarrow> int \<times> AuthStatus"
  kParserEOF :: int
  AuthStatusResult_to_string :: "u64 \<Rightarrow> string"
  base64_Decode :: "string \<Rightarrow> bool \<times> bytes"
  EC_KEY_new_by_curve_name :: "curve_nid \<Rightarrow> bool"
  EC_KEY_set_private_key :: "curve_nid \<Rightarrow> nat \<Rightarrow> bool"
  EC_POINT_mul :: "curve_nid \<Rightarrow> nat \<Rightarrow> EC_POINT option"
  EC_KEY_set_public_key :: "curve_nid \<Rightarrow> EC_POINT \<Rightarrow> bool"
  i2o_ECPublicKey :: "curve_nid \<Rightarrow> EC_POINT \<Rightarrow> bytes"
  o2i_ECPublicKey :: "curve_nid \<Rightarrow> bytes \<Rightarrow> EC_POINT option"
  ECDH_compute_key :: "curve_nid \<Rightarrow> nat \<Rightarrow> EC_POINT \<Rightarrow> int \<times> bytes"
  SHA512 :: "bytes \<Rightarrow> bytes"

text \<open>\<^verbatim>\<open>BN_bin2bn\<close> reads a big-endian byte string as a number.\<close>

fun BN_bin2bn_acc :: "nat \<Rightarrow> bytes \<Rightarrow> nat" where
  "BN_bin2bn_acc acc [] = acc"
| "BN_bin2bn_acc acc (b # bs) = BN_bin2bn_acc (acc * 256 + unat b) bs"

definition BN_bin2bn :: "bytes \<Rightarrow> nat" where
  "BN_bin2bn bs = BN_bin2bn_acc 0 bs"

text \<open>
  The streaming SHA-512 interface: the context collects the bytes of every update, and
  \<^verbatim>\<open>SHA512_Final\<close> hashes what was collected.
\<close>

definition SHA512_Init :: bytes where
  "SHA512_Init = []"

definition SHA512_Update :: "bytes \<Rightarrow> bytes \<Rightarrow> bytes" where
  "SHA512_Update ctx d = ctx @ d"

definition SHA512_Final :: "externals \<Rightarrow> bytes \<Rightarrow> bytes" where
  "SHA512_Final ext ctx = SHA512 ext ctx"

definition string_bytes :: "string \<Rightarrow> bytes" where
  "string_bytes s = map of_char s"

subsection \<open>AuthenticationBase\<close>

text \<open>
  \<^verbatim>\<open>sender\<close> and \<^verbatim>\<open>receiver\<close> are owning pointers to protocol connections: \<open>None\<close> is the
  null pointer, \<open>Some c\<close> the connection \<open>c\<close>.
\<close>

record AuthenticationData =
  sender :: "nat option"
  receiver :: "nat option"
  auth_token :: string
  password :: string
  shared_key :: bytes

record AuthenticationBase =
  instance_id :: u64
  fingerprint :: string
  auth_data :: AuthenticationData

definition AuthenticationBase_init :: "u64 \<Rightarrow> string \<Rightarrow> AuthenticationBase" where
  "AuthenticationBase_init iid fp =
     \<lparr>instance_id = iid, fingerprint = fp,
      auth_data = \<lparr>sender = None, receiver = None, auth_token = [], password = [],
                   shared_key = replicate 64 0\<rparr>\<rparr>"

definition SetSender :: "nat option \<Rightarrow> AuthenticationBase \<Rightarrow> AuthenticationBase" where
  "SetSender c a = a\<lparr>auth_data := (auth_data a)\<lparr>sender := c\<rparr>\<rparr>"

definition SetReceiver :: "nat option \<Rightarrow> AuthenticationBase \<Rightarrow> AuthenticationBase" where
  "SetReceiver c a = a\<lparr>auth_data := (auth_data a)\<lparr>receiver := c\<rparr>\<rparr>"

definition SetAuthenticationToken :: "string \<Rightarrow> AuthenticationBase \<Rightarrow> AuthenticationBase" where
  "SetAuthenticationToken t a = a\<lparr>auth_data := (auth_data a)\<lparr>auth_token := t\<rparr>\<rparr>"

definition SetPassword :: "string \<Rightarrow> AuthenticationBase \<Rightarrow> AuthenticationBase" where
  "SetPassword p a = a\<lparr>auth_data := (auth_data a)\<lparr>password := p\<rparr>\<rparr>"

text \<open>The return value of \<^verbatim>\<open>base64::Decode\<close> is ignored; the output vector is returned.\<close>

definition ComputePrivateKey :: "externals \<Rightarrow> string \<Rightarrow> bytes" where
  "ComputePrivateKey ext fp = snd (base64_Decode ext fp)"

text \<open>
  In both functions \<open>key\<close> is the curve of the \<^verbatim>\<open>EC_KEY\<close> that
  \<^verbatim>\<open>EC_KEY_new_by_curve_name(NID_X9_62_prime256v1)\<close> makes; \<^verbatim>\<open>OSP_CHECK(key)\<close> fails where no
  key is returned.
\<close>

definition ComputePublicValue :: "externals \<Rightarrow> bytes \<Rightarrow> bytes outcome" where
  "ComputePublicValue ext self_private_key =
     (let key = NID_X9_62_prime256v1 in
      if \<not> EC_KEY_new_by_curve_name ext key then CheckFailed
      else
        let private_bn = BN_bin2bn self_private_key in
        if \<not> EC_KEY_set_private_key ext key private_bn then CheckFailed
        else case EC_POINT_mul ext key private_bn of
          None \<Rightarrow> Returns []
        | Some point \<Rightarrow>
            if \<not> EC_KEY_set_public_key ext key point then CheckFailed
            else
              let public_value = i2o_ECPublicKey ext key point in
              if \<not> length public_value > 0 then CheckFailed else Returns public_value)"

definition ComputeSharedKey :: "externals \<Rightarrow> bytes \<Rightarrow> bytes \<Rightarrow> string \<Rightarrow> bytes outcome" where
  "ComputeSharedKey ext self_private_key peer_public_value pw =
     (let key = NID_X9_62_prime256v1 in
      if \<not> EC_KEY_new_by_curve_name ext key then CheckFailed
      else
      let private_bn = BN_bin2bn self_private_key in
      if \<not> EC_KEY_set_private_key ext key private_bn then CheckFailed
      else case o2i_ECPublicKey ext key peer_public_value of
        None \<Rightarrow> CheckFailed
      | Some peer_point \<Rightarrow>
          let (ret, shared_key_data) = ECDH_compute_key ext key private_bn peer_point;
              secret_length = (word_of_int ret :: u64)
          in if \<not> secret_length > 0 then CheckFailed
             else if unat secret_length > length shared_key_data then UndefinedBehaviour
             else let sha512 = SHA512_Init;
                      sha512 = SHA512_Update sha512 (take (unat secret_length) shared_key_data);
                      sha512 = SHA512_Update sha512 (string_bytes pw)
                  in Returns (SHA512_Final ext sha512))"

subsection \<open>AuthenticationBob\<close>

datatype auth_event =
  WriteHandshake AuthSpake2Handshake
| WriteConfirmation AuthSpake2Confirmation
| WriteStatus AuthStatus
| OnAuthenticationSucceed u64
| OnAuthenticationFailed u64 Error

text \<open>
  The three-iterator \<^verbatim>\<open>std::equal(first1, last1, first2)\<close>: it walks the first range and
  reads the second at the same positions, stopping at the first difference. Reading
  past the end of the second range is undefined behaviour (\<open>None\<close>).
\<close>

fun std_equal :: "'a list \<Rightarrow> 'a list \<Rightarrow> bool option" where
  "std_equal [] ys = Some True"
| "std_equal (x # xs) [] = None"
| "std_equal (x # xs) (y # ys) = (if x = y then std_equal xs ys else Some False)"

type_synonym auth_result = "(ErrorCode + nat) \<times> AuthenticationBase \<times> auth_event list"

definition StartAuthentication :: "externals \<Rightarrow> AuthenticationBase \<Rightarrow> auth_event list outcome" where
  "StartAuthentication ext a =
     (if sender (auth_data a) = None
      then Returns [OnAuthenticationFailed (instance_id a) (Error_of_code kNoActiveConnection)]
      else case ComputePublicValue ext (ComputePrivateKey ext (fingerprint a)) of
        Returns pv \<Rightarrow>
          Returns [WriteHandshake
            \<lparr>initiation_token = \<lparr>has_token = True, token = auth_token (auth_data a)\<rparr>,
             psk_status = kPskNeedsPresentation, public_value = pv\<rparr>]
      | CheckFailed \<Rightarrow> CheckFailed
      | UndefinedBehaviour \<Rightarrow> UndefinedBehaviour)"

text \<open>
  The cases of the \<^verbatim>\<open>switch\<close> in \<^verbatim>\<open>AuthenticationBob::OnStreamMessage\<close>, one definition
  for each message type, and the function itself after them.
\<close>

definition OnHandshake :: "externals \<Rightarrow> AuthenticationBase \<Rightarrow> u64 \<Rightarrow> bytes \<Rightarrow> auth_result outcome" where
  "OnHandshake ext a iid buffer =
     (let (res, handshake) = DecodeAuthSpake2Handshake ext buffer in
      if res < 0 then
        (if res = kParserEOF ext then Returns (Inl kCborIncompleteMessage, a, [])
         else Returns (Inl kCborParsing, a,
                [OnAuthenticationFailed iid
                   \<lparr>code = kCborParsing,
                    message = ''Failed to parse AuthSpake2Handshake message.''\<rparr>]))
      else
        let tok = initiation_token handshake in
        if \<not> has_token tok \<or> token tok \<noteq> auth_token (auth_data a) then
          Returns (Inr (nat res), a,
            [OnAuthenticationFailed iid
               \<lparr>code = kInvalidAnswer,
                message = ''Authentication failed: initiation token mismatch.''\<rparr>])
        else if psk_status handshake = kPskShown then
          (case ComputeSharedKey ext (ComputePrivateKey ext (fingerprint a))
                  (public_value handshake) (password (auth_data a)) of
             Returns k \<Rightarrow>
               (case ComputePublicValue ext (ComputePrivateKey ext (fingerprint a)) of
                  Returns pv \<Rightarrow>
                    Returns (Inr (nat res),
                      a\<lparr>auth_data := (auth_data a)\<lparr>shared_key := k\<rparr>\<rparr>,
                      [WriteHandshake
                         \<lparr>initiation_token = \<lparr>has_token = True, token = token tok\<rparr>,
                          psk_status = kPskInput, public_value = pv\<rparr>])
                | CheckFailed \<Rightarrow> CheckFailed
                | UndefinedBehaviour \<Rightarrow> UndefinedBehaviour)
           | CheckFailed \<Rightarrow> CheckFailed
           | UndefinedBehaviour \<Rightarrow> UndefinedBehaviour)
        else if psk_status handshake = kPskInput then
          (case ComputeSharedKey ext (ComputePrivateKey ext (fingerprint a))
                  (public_value handshake) (password (auth_data a)) of
             Returns k \<Rightarrow>
               Returns (Inr (nat res), a, [WriteConfirmation \<lparr>confirmation_value = k\<rparr>])
           | CheckFailed \<Rightarrow> CheckFailed
           | UndefinedBehaviour \<Rightarrow> UndefinedBehaviour)
        else
          Returns (Inr (nat res), a,
            [OnAuthenticationFailed iid
               \<lparr>code = kInvalidAnswer,
                message = ''Authentication failed: receive wrong PSK status.''\<rparr>]))"

definition OnConfirmation :: "externals \<Rightarrow> AuthenticationBase \<Rightarrow> u64 \<Rightarrow> bytes \<Rightarrow> auth_result outcome" where
  "OnConfirmation ext a iid buffer =
     (let (res, confirmation) = DecodeAuthSpake2Confirmation ext buffer in
      if res < 0 then
        (if res = kParserEOF ext then Returns (Inl kCborIncompleteMessage, a, [])
         else Returns (Inl kCborParsing, a,
                [OnAuthenticationFailed iid
                   \<lparr>code = kCborParsing,
                    message = ''Failed to parse AuthSpake2Confirmation message.''\<rparr>]))
      else
        case std_equal (shared_key (auth_data a)) (confirmation_value confirmation) of
          None \<Rightarrow> UndefinedBehaviour
        | Some True \<Rightarrow>
            Returns (Inr (nat res), a,
              [WriteStatus \<lparr>result = kAuthenticated\<rparr>, OnAuthenticationSucceed iid])
        | Some False \<Rightarrow>
            Returns (Inr (nat res), a,
              [WriteStatus \<lparr>result = kProofInvalid\<rparr>,
               OnAuthenticationFailed iid
                 \<lparr>code = kInvalidAnswer,
                  message = ''Authentication failed: shared key mismatch.''\<rparr>]))"

definition OnStatus :: "externals \<Rightarrow> AuthenticationBase \<Rightarrow> u64 \<Rightarrow> bytes \<Rightarrow> auth_result outcome" where
  "OnStatus ext a iid buffer =
     (let (res, status) = DecodeAuthStatus ext buffer in
      if res < 0 then
        (if res = kParserEOF ext then Returns (Inl kCborIncompleteMessage, a, [])
         else Returns (Inl kCborParsing, a,
                [OnAuthenticationFailed iid
                   \<lparr>code = kCborParsing, message = ''Failed to parse AuthStatus message.''\<rparr>]))
      else if result status = kAuthenticated then
        Returns (Inr (nat res), a, [OnAuthenticationSucceed iid])
      else
        Returns (Inr (nat res), a,
          [OnAuthenticationFailed iid
             \<lparr>code = kInvalidAnswer,
              message = ''Authentication failed: '' @ AuthStatusResult_to_string ext (result status)\<rparr>]))"

text \<open>
  \<^verbatim>\<open>AuthenticationBob::OnStreamMessage\<close>. The connection id and the time are not used by
  the body and are left out.
\<close>

definition OnStreamMessage ::
  "externals \<Rightarrow> AuthenticationBase \<Rightarrow> u64 \<Rightarrow> MsgType \<Rightarrow> bytes \<Rightarrow> auth_result outcome" where
  "OnStreamMessage ext a iid message_type buffer =
     (if instance_id a \<noteq> iid then CheckFailed
      else if sender (auth_data a) = None then
        Returns (Inl kNoActiveConnection, a,
          [OnAuthenticationFailed iid (Error_of_code kNoActiveConnection)])
      else case message_type of
        kAuthSpake2Handshake \<Rightarrow> OnHandshake ext a iid buffer
      | kAuthSpake2Confirmation \<Rightarrow> OnConfirmation ext a iid buffer
      | kAuthStatus \<Rightarrow> OnStatus ext a iid buffer
      | kOtherType t \<Rightarrow>
          Returns (Inl kCborParsing, a,
            [OnAuthenticationFailed iid
               \<lparr>code = kCborParsing,
                message = ''Receives authentication message with unprocessable type.''\<rparr>]))"

section \<open>Containers and collaborators of the QUIC endpoints\<close>

subsection \<open>std::map\<close>

text \<open>
  A \<^verbatim>\<open>std::map\<close> is an association list kept in key order, so that a range-for loop over
  the map is a recursion over the list. \<^verbatim>\<open>emplace\<close> inserts only where the key is absent;
  \<open>map_modify\<close> changes the mapped value of an existing key through a reference to it.
\<close>

type_synonym ('k, 'v) std_map = "('k \<times> 'v) list"

definition map_find :: "'k \<Rightarrow> ('k, 'v) std_map \<Rightarrow> 'v option" where
  "map_find k m = map_of m k"

fun insert_sorted :: "'k::linorder \<Rightarrow> 'v \<Rightarrow> ('k, 'v) std_map \<Rightarrow> ('k, 'v) std_map" where
  "insert_sorted k v [] = [(k, v)]"
| "insert_sorted k v (e # m) =
     (if k < fst e then (k, v) # e # m else e # insert_sorted k v m)"

definition map_emplace :: "'k::linorder \<Rightarrow> 'v \<Rightarrow> ('k, 'v) std_map \<Rightarrow> ('k, 'v) std_map" where
  "map_emplace k v m = (if map_find k m \<noteq> None then m else insert_sorted k v m)"

definition map_erase :: "'k \<Rightarrow> ('k, 'v) std_map \<Rightarrow> ('k, 'v) std_map" where
  "map_erase k m = filter (\<lambda>e. fst e \<noteq> k) m"

definition map_modify :: "'k \<Rightarrow> ('v \<Rightarrow> 'v) \<Rightarrow> ('k, 'v) std_map \<Rightarrow> ('k, 'v) std_map" where
  "map_modify k f m = map (\<lambda>e. if fst e = k then (fst e, f (snd e)) else e) m"

text \<open>The keys of a map.\<close>

definition map_keys :: "('k, 'v) std_map \<Rightarrow> 'k set" where
  "map_keys m = fst ` set m"

subsection \<open>Connections, stream managers and protocol connections\<close>

text \<open>
  A \<^verbatim>\<open>QuicProtocolConnection\<close> carries the instance id and the protocol connection id,
  which is the id of its QUIC stream.
\<close>

record ProtocolConnection =
  pc_instance_id :: u64
  pc_id :: u64

text \<open>
  \<^verbatim>\<open>ServiceConnectionData\<close> owns a \<^verbatim>\<open>QuicConnection\<close> and its \<^verbatim>\<open>ServiceConnectionDelegate\<close>.
  The connection object is identified by a number. Of the delegate the model keeps the
  instance name, the table \<^verbatim>\<open>streams_\<close> (stream id to protocol connection id) and the
  list \<^verbatim>\<open>closed_streams_\<close>.

  Modelled from the spec: \<^verbatim>\<open>QuicConnection::MakeOutgoingStream\<close> belongs to the QUIC
  connection implementation, which is not part of the sources at hand. The spec says
  that each call to "new outgoing stream" allocates a fresh protocol connection id
  (the QUIC stream id); \<open>next_stream_id\<close> is the id the next outgoing stream gets.
\<close>

record ServiceConnectionData =
  connection :: nat
  instance_name :: string
  streams :: "(u64, u64) std_map"
  closed_streams :: "u64 list"
  next_stream_id :: u64

definition ServiceConnectionData_new :: "nat \<Rightarrow> string \<Rightarrow> ServiceConnectionData" where
  "ServiceConnectionData_new c name =
     \<lparr>connection = c, instance_name = name, streams = [], closed_streams = [],
      next_stream_id = 0\<rparr>"

definition has_streams :: "ServiceConnectionData \<Rightarrow> bool" where
  "has_streams d = (streams d \<noteq> [])"

definition DestroyClosedStreams :: "ServiceConnectionData \<Rightarrow> ServiceConnectionData" where
  "DestroyClosedStreams d = d\<lparr>closed_streams := []\<rparr>"

text \<open>
  \<^verbatim>\<open>~ServiceConnectionDelegate\<close> runs \<^verbatim>\<open>OSP_CHECK(streams_.empty())\<close> (the line before it
  declares a function and calls nothing): destroying the data of a connection whose
  delegate still has a stream aborts. \<open>destructor_check\<close> says that the check passes.
\<close>

definition destructor_check :: "ServiceConnectionData \<Rightarrow> bool" where
  "destructor_check d = (streams d = [])"

definition AddStreamPair :: "u64 \<Rightarrow> u64 \<Rightarrow> ServiceConnectionData \<Rightarrow> ServiceConnectionData" where
  "AddStreamPair stream_id protocol_connection_id d =
     d\<lparr>streams := map_emplace stream_id protocol_connection_id (streams d)\<rparr>"

text \<open>\<^verbatim>\<open>ServiceConnectionDelegate::OnClose\<close>, without the notifications it sends.\<close>

definition OnClose :: "u64 \<Rightarrow> ServiceConnectionData \<Rightarrow> ServiceConnectionData" where
  "OnClose stream_id d =
     (case map_find stream_id (streams d) of
        None \<Rightarrow> d
      | Some pcid \<Rightarrow>
          d\<lparr>closed_streams := closed_streams d @ [stream_id],
            streams := map_erase stream_id (streams d)\<rparr>)"

definition FromExisting ::
  "ServiceConnectionData \<Rightarrow> u64 \<Rightarrow> ProtocolConnection \<times> ServiceConnectionData" where
  "FromExisting d instance_number =
     (let stream_id = next_stream_id d;
          pc = \<lparr>pc_instance_id = instance_number, pc_id = stream_id\<rparr>
      in (pc, AddStreamPair stream_id (pc_id pc) (d\<lparr>next_stream_id := stream_id + 1\<rparr>)))"

text \<open>
  Modelled from the spec: \<^verbatim>\<open>InstanceRequestIds\<close> (osp/public/instance_request_ids.h) is
  not part of the sources at hand. The spec describes a per-instance monotonic
  request-id generator that is reset on instance teardown: a table from instance id to
  the next request id, where \<^verbatim>\<open>ResetRequestId\<close> forgets one instance and \<^verbatim>\<open>Reset\<close>
  forgets all.
\<close>

type_synonym InstanceRequestIds = "u64 \<rightharpoonup> u64"

definition ResetRequestId :: "u64 \<Rightarrow> InstanceRequestIds \<Rightarrow> InstanceRequestIds" where
  "ResetRequestId n ids = ids(n := None)"

definition Reset :: "InstanceRequestIds \<Rightarrow> InstanceRequestIds" where
  "Reset ids = Map.empty"

text \<open>
  What the endpoints do to their collaborators, in the order they do it: the calls on
  the observer, on the callbacks of connect requests (a callback object is identified
  by a number), on connections, on the connection factory and on the clean-up alarm.
  What a collaborator does in turn is not part of the call: a connection that was closed
  reports \<^verbatim>\<open>OnConnectionClosed\<close> to the endpoint, which is a call of its own.
\<close>

datatype service_event =
  OnRunning
| OnStopped
| OnSuspended
| OnIncomingConnection ProtocolConnection
| OnConnectionOpened nat u64 ProtocolConnection
| OnConnectionFailed nat u64
| ConnectionClose nat
| SetServerDelegate bool
| CleanupScheduled

section \<open>QuicClient (osp/impl/quic/quic_client.cc)\<close>

datatype ClientState = Client_kStopped | Client_kStarting | Client_kRunning | Client_kStopping

type_synonym IPEndpoint = "nat \<times> nat"

text \<open>
  An endpoint of an instance may be unset; \<open>None\<close> is the endpoint whose conversion
  to \<^verbatim>\<open>bool\<close> is false.
\<close>

record InstanceInfo =
  info_fingerprint :: string
  v4_endpoint :: "IPEndpoint option"
  v6_endpoint :: "IPEndpoint option"

record ServiceInfo =
  instance_id_name :: string
  service_fingerprint :: string
  service_v4_endpoint :: "IPEndpoint option"
  service_v6_endpoint :: "IPEndpoint option"

text \<open>A waiter is a request id with the callback object of the request.\<close>

record PendingConnectionData =
  data :: ServiceConnectionData
  callbacks :: "(u64 \<times> nat) list"

text \<open>
  The members of \<^verbatim>\<open>QuicClient\<close>. \<^verbatim>\<open>instance_infos_\<close>, \<^verbatim>\<open>instance_map_\<close> and the request ids
  are never iterated and are maps; \<^verbatim>\<open>pending_connections_\<close> and \<^verbatim>\<open>connections_\<close> are
  iterated in key order. \<open>connections_made\<close> counts the connection objects the factory
  has created, and names the next one.
\<close>

record QuicClient =
  state :: ClientState
  connection_endpoints :: "IPEndpoint list"
  instance_infos :: "string \<rightharpoonup> InstanceInfo"
  instance_map :: "string \<rightharpoonup> u64"
  next_instance_number :: u64
  next_request_id :: u64
  pending_connections :: "(string, PendingConnectionData) std_map"
  connections :: "(u64, ServiceConnectionData) std_map"
  delete_connections :: "u64 list"
  instance_request_ids :: InstanceRequestIds
  connections_made :: nat

text \<open>
  Modelled from the spec: the member initialisers are in quic_client.h, which is not part
  of the sources at hand. The spec has the instance id counter start at 1 and 0 reserved
  as invalid; a valid request id is greater than 0 (protocol_connection_client.h).
\<close>

definition QuicClient_init :: "IPEndpoint list \<Rightarrow> QuicClient" where
  "QuicClient_init endpoints =
     \<lparr>state = Client_kStopped, connection_endpoints = endpoints,
      instance_infos = Map.empty, instance_map = Map.empty,
      next_instance_number = 1, next_request_id = 1,
      pending_connections = [], connections = [], delete_connections = [],
      instance_request_ids = Map.empty, connections_made = 0\<rparr>"

text \<open>
  Every instance number in use as a key of \<^verbatim>\<open>connections_\<close> is below the counter.
\<close>

definition keys_below :: "QuicClient \<Rightarrow> bool" where
  "keys_below st = (\<forall>k \<in> map_keys (connections st). k < next_instance_number st)"

text \<open>The first loop of \<^verbatim>\<open>Cleanup\<close>, over \<^verbatim>\<open>connections_\<close>.\<close>

fun Cleanup_connections ::
  "(u64, ServiceConnectionData) std_map \<Rightarrow>
   (u64, ServiceConnectionData) std_map \<times> service_event list" where
  "Cleanup_connections [] = ([], [])"
| "Cleanup_connections ((n, d) # rest) =
     (let d1 = DestroyClosedStreams d;
          ev = (if \<not> has_streams d1 then [ConnectionClose (connection d1)] else []);
          (rest1, evs) = Cleanup_connections rest
      in ((n, d1) # rest1, ev @ evs))"

text \<open>
  The second loop of \<^verbatim>\<open>Cleanup\<close>, over \<^verbatim>\<open>delete_connections_\<close>. Erasing a record of
  \<^verbatim>\<open>connections_\<close> destroys its connection and its delegate, and the destructor of the
  delegate checks that no stream is left: the loop aborts at a record that still has one.
\<close>

fun erase_all ::
  "u64 list \<Rightarrow> (u64, ServiceConnectionData) std_map \<Rightarrow>
   (u64, ServiceConnectionData) std_map outcome" where
  "erase_all [] m = Returns m"
| "erase_all (k # ks) m =
     (case map_find k m of
        None \<Rightarrow> erase_all ks m
      | Some d \<Rightarrow>
          if \<not> destructor_check d then CheckFailed
          else erase_all ks (map_erase k m))"

definition Cleanup :: "QuicClient \<Rightarrow> (QuicClient \<times> service_event list) outcome" where
  "Cleanup st =
     (let (conns, evs) = Cleanup_connections (connections st)
      in case erase_all (delete_connections st) conns of
           Returns conns1 \<Rightarrow>
             let st1 = st\<lparr>connections := conns1, delete_connections := []\<rparr>
             in Returns (st1,
                  evs @ (if state st1 \<noteq> Client_kStopped then [CleanupScheduled] else []))
         | CheckFailed \<Rightarrow> CheckFailed
         | UndefinedBehaviour \<Rightarrow> UndefinedBehaviour)"

text \<open>
  The loops of \<^verbatim>\<open>CloseAllConnections\<close>. Every connection is closed before its table is
  cleared. What \<^verbatim>\<open>QuicConnection::Close\<close> does to the streams of the connection is in the
  QUIC connection implementation, which is not part of the sources at hand; the model
  takes the streams to be closed by it, so that the destructors run by \<^verbatim>\<open>clear()\<close> pass
  their check.
\<close>

fun close_pending :: "(string, PendingConnectionData) std_map \<Rightarrow> service_event list" where
  "close_pending [] = []"
| "close_pending ((name, p) # rest) =
     ConnectionClose (connection (data p))
       # map (\<lambda>item. OnConnectionFailed (snd item) (fst item)) (callbacks p)
       @ close_pending rest"

fun close_connections :: "('k, ServiceConnectionData) std_map \<Rightarrow> service_event list" where
  "close_connections [] = []"
| "close_connections ((n, d) # rest) = ConnectionClose (connection d) # close_connections rest"

definition CloseAllConnections :: "QuicClient \<Rightarrow> QuicClient \<times> service_event list" where
  "CloseAllConnections st =
     (st\<lparr>pending_connections := [], connections := [], instance_map := Map.empty,
         next_instance_number := 1,
         instance_request_ids := Reset (instance_request_ids st)\<rparr>,
      close_pending (pending_connections st) @ close_connections (connections st))"

definition Start :: "QuicClient \<Rightarrow> (bool \<times> QuicClient \<times> service_event list) outcome" where
  "Start st =
     (if state st = Client_kRunning then Returns (False, st, [])
      else case Cleanup (st\<lparr>state := Client_kRunning\<rparr>) of
             Returns (st1, evs) \<Rightarrow> Returns (True, st1, evs @ [OnRunning])
           | CheckFailed \<Rightarrow> CheckFailed
           | UndefinedBehaviour \<Rightarrow> UndefinedBehaviour)"

definition Stop :: "QuicClient \<Rightarrow> (bool \<times> QuicClient \<times> service_event list) outcome" where
  "Stop st =
     (if state st = Client_kStopped then Returns (False, st, [])
      else let (st1, evs1) = CloseAllConnections st
           in case Cleanup (st1\<lparr>state := Client_kStopped\<rparr>) of
                Returns (st2, evs2) \<Rightarrow> Returns (True, st2, evs1 @ evs2 @ [OnStopped])
              | CheckFailed \<Rightarrow> CheckFailed
              | UndefinedBehaviour \<Rightarrow> UndefinedBehaviour)"

definition CreateProtocolConnection ::
  "QuicClient \<Rightarrow> u64 \<Rightarrow> (ProtocolConnection \<times> QuicClient) option" where
  "CreateProtocolConnection st instance_number =
     (if state st \<noteq> Client_kRunning then None
      else case map_find instance_number (connections st) of
        None \<Rightarrow> None
      | Some d \<Rightarrow>
          let (pc, d1) = FromExisting d instance_number
          in Some (pc, st\<lparr>connections := map_modify instance_number (\<lambda>_. d1) (connections st)\<rparr>))"

text \<open>
  \<^verbatim>\<open>StartConnectionRequest\<close>. Whether the factory's \<^verbatim>\<open>Connect\<close> succeeds is the parameter
  \<open>fac\<close>, given the local endpoint, the remote endpoint and the fingerprint.
  \<^verbatim>\<open>connection_endpoints_[0]\<close> on an empty vector is undefined behaviour.
\<close>

type_synonym factory = "IPEndpoint \<Rightarrow> IPEndpoint option \<Rightarrow> string \<Rightarrow> bool"

definition StartConnectionRequest ::
  "factory \<Rightarrow> QuicClient \<Rightarrow> string \<Rightarrow> nat \<Rightarrow> (u64 \<times> QuicClient \<times> service_event list) outcome" where
  "StartConnectionRequest fac st name request_callback =
     (case instance_infos st name of
        None \<Rightarrow> Returns (0, st, [OnConnectionFailed request_callback 0])
      | Some info \<Rightarrow>
          let endpoint = (if v4_endpoint info \<noteq> None then v4_endpoint info else v6_endpoint info)
          in case connection_endpoints st of
               [] \<Rightarrow> UndefinedBehaviour
             | local_endpoint # _ \<Rightarrow>
                 if \<not> fac local_endpoint endpoint (info_fingerprint info)
                 then Returns (0, st, [OnConnectionFailed request_callback 0])
                 else
                   let pending = map_emplace name
                         \<lparr>data = ServiceConnectionData_new (connections_made st) name,
                          callbacks = []\<rparr> (pending_connections st);
                       request_id = next_request_id st
                   in Returns (request_id,
                        st\<lparr>pending_connections :=
                             map_modify name
                               (\<lambda>p. p\<lparr>callbacks := callbacks p @ [(request_id, request_callback)]\<rparr>)
                               pending,
                           next_request_id := request_id + 1,
                           connections_made := connections_made st + 1\<rparr>,
                        []))"

text \<open>
  \<^verbatim>\<open>CreatePendingConnection\<close> and \<^verbatim>\<open>Connect\<close> return the \<^verbatim>\<open>bool\<close> and the request id
  written to the \<^verbatim>\<open>ConnectRequest\<close>, if one is written.
\<close>

type_synonym connect_result = "(bool \<times> u64 option) \<times> QuicClient \<times> service_event list"

definition CreatePendingConnection ::
  "factory \<Rightarrow> QuicClient \<Rightarrow> string \<Rightarrow> nat \<Rightarrow> connect_result outcome" where
  "CreatePendingConnection fac st name request_callback =
     (case map_find name (pending_connections st) of
        None \<Rightarrow>
          (case StartConnectionRequest fac st name request_callback of
             Returns (request_id, st1, evs) \<Rightarrow>
               if request_id \<noteq> 0 then Returns ((True, Some request_id), st1, evs)
               else Returns ((False, None), st1, evs)
           | CheckFailed \<Rightarrow> CheckFailed
           | UndefinedBehaviour \<Rightarrow> UndefinedBehaviour)
      | Some pending_entry \<Rightarrow>
          let request_id = next_request_id st
          in Returns ((True, Some request_id),
               st\<lparr>next_request_id := request_id + 1,
                  pending_connections :=
                    map_modify name
                      (\<lambda>p. p\<lparr>callbacks := callbacks p @ [(request_id, request_callback)]\<rparr>)
                      (pending_connections st)\<rparr>,
               []))"

definition Connect :: "factory \<Rightarrow> QuicClient \<Rightarrow> string \<Rightarrow> nat \<Rightarrow> connect_result outcome" where
  "Connect fac st name request_callback =
     (if state st \<noteq> Client_kRunning
      then Returns ((False, None), st, [OnConnectionFailed request_callback 0])
      else case instance_map st name of
        Some instance_number \<Rightarrow>
          (case CreateProtocolConnection st instance_number of
             None \<Rightarrow> CheckFailed
           | Some (immediate_result, st1) \<Rightarrow>
               let request_id = next_request_id st1
               in Returns ((True, Some request_id),
                    st1\<lparr>next_request_id := request_id + 1\<rparr>,
                    [OnConnectionOpened request_callback request_id immediate_result]))
      | None \<Rightarrow> CreatePendingConnection fac st name request_callback)"

text \<open>The loop of \<^verbatim>\<open>OnCryptoHandshakeComplete\<close> over the waiters of the pending entry.\<close>

fun open_waiters ::
  "u64 \<Rightarrow> (u64 \<times> nat) list \<Rightarrow> ServiceConnectionData \<Rightarrow>
   service_event list \<times> ServiceConnectionData" where
  "open_waiters instance_number [] d = ([], d)"
| "open_waiters instance_number (request # rest) d =
     (let (pc, d1) = FromExisting d instance_number;
          (evs, d2) = open_waiters instance_number rest d1
      in (OnConnectionOpened (snd request) (fst request) pc # evs, d2))"

text \<open>
  \<^verbatim>\<open>OnCryptoHandshakeComplete\<close>, given the instance name of the delegate. Where the new
  instance number is already a key of \<^verbatim>\<open>connections_\<close>, \<^verbatim>\<open>emplace\<close> inserts nothing and the
  connection data moved into it is destroyed; the loop then makes streams on a destroyed
  connection, which is undefined behaviour if there is a waiter.
\<close>

definition OnCryptoHandshakeComplete ::
  "QuicClient \<Rightarrow> string \<Rightarrow> (u64 \<times> QuicClient \<times> service_event list) outcome" where
  "OnCryptoHandshakeComplete st name =
     (case map_find name (pending_connections st) of
        None \<Rightarrow> Returns (0, st, [])
      | Some pending_entry \<Rightarrow>
          let instance_number = next_instance_number st;
              st1 = st\<lparr>next_instance_number := instance_number + 1,
                       instance_map := (instance_map st)(name \<mapsto> instance_number)\<rparr>
          in if map_find instance_number (connections st) \<noteq> None
             then (if callbacks pending_entry \<noteq> [] then UndefinedBehaviour
                   else Returns (instance_number,
                          st1\<lparr>pending_connections := map_erase name (pending_connections st)\<rparr>,
                          []))
             else
               let (evs, d) = open_waiters instance_number (callbacks pending_entry)
                                (data pending_entry)
               in Returns (instance_number,
                    st1\<lparr>connections := map_emplace instance_number d (connections st),
                        pending_connections := map_erase name (pending_connections st)\<rparr>,
                    evs))"

definition OnConnectionClosed :: "QuicClient \<Rightarrow> u64 \<Rightarrow> QuicClient" where
  "OnConnectionClosed st instance_number =
     (case map_find instance_number (connections st) of
        None \<Rightarrow> st
      | Some d \<Rightarrow>
          st\<lparr>delete_connections := delete_connections st @ [instance_number],
             instance_request_ids := ResetRequestId instance_number (instance_request_ids st)\<rparr>)"

text \<open>
  A stream of an established connection is closed: the delegate of the connection runs
  \<^verbatim>\<open>ServiceConnectionDelegate::OnClose\<close>.
\<close>

definition OnStreamClose :: "QuicClient \<Rightarrow> u64 \<Rightarrow> u64 \<Rightarrow> QuicClient" where
  "OnStreamClose st instance_number stream_id =
     st\<lparr>connections := map_modify instance_number (OnClose stream_id) (connections st)\<rparr>"

definition OnReceiverAdded :: "QuicClient \<Rightarrow> ServiceInfo \<Rightarrow> QuicClient" where
  "OnReceiverAdded st info =
     (if instance_infos st (instance_id_name info) \<noteq> None then st
      else st\<lparr>instance_infos := (instance_infos st)(instance_id_name info \<mapsto>
             \<lparr>info_fingerprint = service_fingerprint info,
              v4_endpoint = service_v4_endpoint info,
              v6_endpoint = service_v6_endpoint info\<rparr>)\<rparr>)"

definition OnReceiverChanged :: "QuicClient \<Rightarrow> ServiceInfo \<Rightarrow> QuicClient" where
  "OnReceiverChanged st info =
     st\<lparr>instance_infos := (instance_infos st)(instance_id_name info \<mapsto>
          \<lparr>info_fingerprint = service_fingerprint info,
           v4_endpoint = service_v4_endpoint info,
           v6_endpoint = service_v6_endpoint info\<rparr>)\<rparr>"

definition OnReceiverRemoved :: "QuicClient \<Rightarrow> ServiceInfo \<Rightarrow> QuicClient" where
  "OnReceiverRemoved st info =
     st\<lparr>instance_infos := (instance_infos st)(instance_id_name info := None)\<rparr>"

definition OnAllReceiversRemoved :: "QuicClient \<Rightarrow> QuicClient" where
  "OnAllReceiversRemoved st = st\<lparr>instance_infos := Map.empty\<rparr>"

text \<open>
  The loop of \<^verbatim>\<open>CancelConnectRequest\<close> over \<^verbatim>\<open>pending_connections_\<close>: the waiters with the
  request id are removed from the entry at hand; the loop ends by erasing the entry if
  no waiter is left, or by returning if a waiter was removed, and goes on to the next
  entry otherwise.
\<close>

fun cancel_loop ::
  "u64 \<Rightarrow> (string, PendingConnectionData) std_map \<Rightarrow> (string, PendingConnectionData) std_map" where
  "cancel_loop request_id [] = []"
| "cancel_loop request_id ((name, p) # rest) =
     (let size_before_delete = length (callbacks p);
          cbs = filter (\<lambda>callback. \<not> request_id = fst callback) (callbacks p)
      in if cbs = [] then rest
         else if size_before_delete > length cbs then (name, p\<lparr>callbacks := cbs\<rparr>) # rest
         else (name, p\<lparr>callbacks := cbs\<rparr>) # cancel_loop request_id rest)"

definition CancelConnectRequest :: "QuicClient \<Rightarrow> u64 \<Rightarrow> QuicClient \<times> service_event list" where
  "CancelConnectRequest st request_id =
     (st\<lparr>pending_connections := cancel_loop request_id (pending_connections st)\<rparr>, [])"

section \<open>QuicServer (osp/impl/quic/quic_server.cc)\<close>

datatype ServerState =
  Server_kStopped | Server_kStarting | Server_kRunning | Server_kStopping | Server_kSuspended

















section \<open>Runs of the client\<close>

text \<open>
  The calls a client receives: from its owner (\<^verbatim>\<open>Start\<close>, \<^verbatim>\<open>Stop\<close>, \<^verbatim>\<open>Connect\<close>,
  \<^verbatim>\<open>CreateProtocolConnection\<close>, the cancellation of a connect request), from the alarm
  (\<^verbatim>\<open>Cleanup\<close>), from the connection delegates and from the service listener. A step
  gives the new state, what was done to the collaborators, and the instance id issued,
  if the step is a handshake completion that issued one.
\<close>

datatype client_call =
  Call_Start
| Call_Stop
| Call_Cleanup
| Call_Connect string nat
| Call_CreateProtocolConnection u64
| Call_CancelConnectRequest u64
| Call_OnCryptoHandshakeComplete string
| Call_OnConnectionClosed u64
| Call_OnStreamClose u64 u64
| Call_OnReceiverAdded ServiceInfo
| Call_OnReceiverChanged ServiceInfo
| Call_OnReceiverRemoved ServiceInfo
| Call_OnAllReceiversRemoved

type_synonym client_step_result = "QuicClient \<times> service_event list \<times> u64 list"

fun client_step :: "factory \<Rightarrow> QuicClient \<Rightarrow> client_call \<Rightarrow> client_step_result outcome" where
  "client_step fac st Call_Start =
     (case Start st of
        Returns (r, st1, evs) \<Rightarrow> Returns (st1, evs, [])
      | CheckFailed \<Rightarrow> CheckFailed
      | UndefinedBehaviour \<Rightarrow> UndefinedBehaviour)"
| "client_step fac st Call_Stop =
     (case Stop st of
        Returns (r, st1, evs) \<Rightarrow> Returns (st1, evs, [])
      | CheckFailed \<Rightarrow> CheckFailed
      | UndefinedBehaviour \<Rightarrow> UndefinedBehaviour)"
| "client_step fac st Call_Cleanup =
     (case Cleanup st of
        Returns (st1, evs) \<Rightarrow> Returns (st1, evs, [])
      | CheckFailed \<Rightarrow> CheckFailed
      | UndefinedBehaviour \<Rightarrow> UndefinedBehaviour)"
| "client_step fac st (Call_Connect name cb) =
     (case Connect fac st name cb of
        Returns (r, st1, evs) \<Rightarrow> Returns (st1, evs, [])
      | CheckFailed \<Rightarrow> CheckFailed
      | UndefinedBehaviour \<Rightarrow> UndefinedBehaviour)"
| "client_step fac st (Call_CreateProtocolConnection n) =
     (case CreateProtocolConnection st n of
        None \<Rightarrow> Returns (st, [], [])
      | Some (pc, st1) \<Rightarrow> Returns (st1, [], []))"
| "client_step fac st (Call_CancelConnectRequest request_id) =
     (case CancelConnectRequest st request_id of (st1, evs) \<Rightarrow> Returns (st1, evs, []))"
| "client_step fac st (Call_OnCryptoHandshakeComplete name) =
     (case OnCryptoHandshakeComplete st name of
        Returns (n, st1, evs) \<Rightarrow> Returns (st1, evs, if n \<noteq> 0 then [n] else [])
      | CheckFailed \<Rightarrow> CheckFailed
      | UndefinedBehaviour \<Rightarrow> UndefinedBehaviour)"
| "client_step fac st (Call_OnConnectionClosed n) = Returns (OnConnectionClosed st n, [], [])"
| "client_step fac st (Call_OnStreamClose n stream_id) = Returns (OnStreamClose st n stream_id, [], [])"
| "client_step fac st (Call_OnReceiverAdded info) = Returns (OnReceiverAdded st info, [], [])"
| "client_step fac st (Call_OnReceiverChanged info) = Returns (OnReceiverChanged st info, [], [])"
| "client_step fac st (Call_OnReceiverRemoved info) = Returns (OnReceiverRemoved st info, [], [])"
| "client_step fac st Call_OnAllReceiversRemoved = Returns (OnAllReceiversRemoved st, [], [])"

fun client_run :: "factory \<Rightarrow> QuicClient \<Rightarrow> client_call list \<Rightarrow> client_step_result outcome" where
  "client_run fac st [] = Returns (st, [], [])"
| "client_run fac st (c # cs) =
     (case client_step fac st c of
        Returns (st1, evs1, ids1) \<Rightarrow>
          (case client_run fac st1 cs of
             Returns (st2, evs2, ids2) \<Rightarrow> Returns (st2, evs1 @ evs2, ids1 @ ids2)
           | CheckFailed \<Rightarrow> CheckFailed
           | UndefinedBehaviour \<Rightarrow> UndefinedBehaviour)
      | CheckFailed \<Rightarrow> CheckFailed
      | UndefinedBehaviour \<Rightarrow> UndefinedBehaviour)"

text \<open>The state a run ends in, and the instance ids a run issues.\<close>

definition client_after :: "factory \<Rightarrow> QuicClient \<Rightarrow> client_call list \<Rightarrow> QuicClient" where
  "client_after fac st cs =
     (case client_run fac st cs of Returns (st1, evs, ids) \<Rightarrow> st1 | _ \<Rightarrow> st)"

definition issued_ids :: "factory \<Rightarrow> QuicClient \<Rightarrow> client_call list \<Rightarrow> u64 list option" where
  "issued_ids fac st cs =
     (case client_run fac st cs of Returns (st1, evs, ids) \<Rightarrow> Some ids | _ \<Rightarrow> None)"


section \<open>Runs of the server\<close>




section \<open>Concrete instances for the examples\<close>

text \<open>
  Small stand-ins for the library parameters, to run the authentication code on concrete
  messages: a handshake is decoded from its status byte followed by the token bytes, a
  confirmation from exactly 64 bytes. They are not the real codecs or primitives.
\<close>

definition example_externals :: externals where
  "example_externals = \<lparr>
     DecodeAuthSpake2Handshake = (\<lambda>b. case b of
         [] \<Rightarrow> (-1, \<lparr>initiation_token = \<lparr>has_token = False, token = []\<rparr>, psk_status = 0, public_value = []\<rparr>)
       | s # t \<Rightarrow> (int (length b),
           \<lparr>initiation_token = \<lparr>has_token = (t \<noteq> []), token = map (\<lambda>w. if w = 84 then CHR ''T'' else CHR ''U'') t\<rparr>, psk_status = of_nat (unat s), public_value = [4, 1, 2]\<rparr>)),
     DecodeAuthSpake2Confirmation = (\<lambda>b. if length b = 64 then (65, \<lparr>confirmation_value = b\<rparr>) else (-1, \<lparr>confirmation_value = replicate 64 0\<rparr>)),
     DecodeAuthStatus = (\<lambda>b. case b of [] \<Rightarrow> (-1, \<lparr>result = 0\<rparr>) | s # t \<Rightarrow> (1, \<lparr>result = of_nat (unat s)\<rparr>)),
     kParserEOF = -1,
     AuthStatusResult_to_string = (\<lambda>r. if r = 0 then ''0'' else ''1''),
     base64_Decode = (\<lambda>s. (True, map of_char s)),
     EC_KEY_new_by_curve_name = (\<lambda>nid. True),
     EC_KEY_set_private_key = (\<lambda>nid n. 0 < n),
     EC_POINT_mul = (\<lambda>nid n. Some (n, n)),
     EC_KEY_set_public_key = (\<lambda>nid p. True),
     i2o_ECPublicKey = (\<lambda>nid p. [4, of_nat (fst p), of_nat (snd p)]),
     o2i_ECPublicKey = (\<lambda>nid b. case b of [t, x, y] \<Rightarrow> if t = 4 then Some (unat x, unat y) else None | _ \<Rightarrow> None),
     ECDH_compute_key = (\<lambda>nid n p.
        if nid = NID_X9_62_prime256v1 then (32, replicate 32 (of_nat (n * fst p)))
        else (48, replicate 48 (of_nat (n * snd p)))),
     SHA512 = (\<lambda>b. take 64 (b @ replicate 64 0))\<rparr>"

definition example_bob :: AuthenticationBase where
  "example_bob = SetPassword ''0000'' (SetAuthenticationToken ''T'' (SetSender (Some 0) (AuthenticationBase_init 7 ''AQ'')))"

text \<open>
  A factory whose \<^verbatim>\<open>Connect\<close> always succeeds, an instance "X" known from discovery, and
  the state of a client after a run from the initial state.
\<close>

definition example_factory :: factory where
  "example_factory = (\<lambda>local_endpoint remote_endpoint fp. True)"

definition example_info :: "string \<Rightarrow> ServiceInfo" where
  "example_info name =
     \<lparr>instance_id_name = name, service_fingerprint = ''fp'',
      service_v4_endpoint = Some (1, 2), service_v6_endpoint = None\<rparr>"

text \<open>A running client with one pending connection to "X" and one waiter on it.\<close>

definition example_client_one_waiter :: QuicClient where
  "example_client_one_waiter =
     client_after example_factory (QuicClient_init [(0, 0)])
       [Call_OnReceiverAdded (example_info ''X''), Call_Start, Call_Connect ''X'' 0]"

text \<open>The same after a second connect request to "X", from the callback 1.\<close>

definition example_client_two_waiters :: QuicClient where
  "example_client_two_waiters =
     client_after example_factory (QuicClient_init [(0, 0)])
       [Call_OnReceiverAdded (example_info ''X''), Call_Start, Call_Connect ''X'' 0,
        Call_Connect ''X'' 1]"

text \<open>
  A run in which the connection to "X" is established as the instance 1 with one
  stream, the stream 0 of the waiter; the stream is closed, the connection is closed,
  and a clean-up pass follows.
\<close>

definition example_close_run :: "client_call list" where
  "example_close_run =
     [Call_OnReceiverAdded (example_info ''X''), Call_Start, Call_Connect ''X'' 0,
      Call_OnCryptoHandshakeComplete ''X'', Call_OnStreamClose 1 0,
      Call_OnConnectionClosed 1, Call_Cleanup]"


section \<open>Properties of ByteView\<close>

text \<open>
  The unit test's view of the ten bytes of "googleplex": \<^verbatim>\<open>subspan(2, 4)\<close> is accepted,
  as are \<^verbatim>\<open>first(4)\<close> and \<^verbatim>\<open>last(4)\<close>.
\<close>

lemma ByteView_test_basics:
  "subspan \<lparr>bv_data = a, bv_count = 10\<rparr> 2 4 = Some \<lparr>bv_data = a + 2, bv_count = 4\<rparr>"
  "first_bv \<lparr>bv_data = a, bv_count = 10\<rparr> 4 = Some \<lparr>bv_data = a, bv_count = 4\<rparr>"
  "last_bv \<lparr>bv_data = a, bv_count = 10\<rparr> 4 = Some \<lparr>bv_data = a + 6, bv_count = 4\<rparr>"
  by (simp_all add: subspan_def first_bv_def last_bv_def)

text \<open>
  C10, as stated, for the part about \<^verbatim>\<open>last\<close>: it says that \<^verbatim>\<open>last(count)\<close>
  accepts \<^verbatim>\<open>count == size()\<close> for every view. The default-constructed (empty) view has
  size 0, and \<^verbatim>\<open>last(0)\<close> fails the second assertion \<^verbatim>\<open>count != 0\<close>.
\<close>

theorem C10_last_empty_counterexample:
  "last_bv ByteView_default (size_bv ByteView_default) = None"
  by (simp add: last_bv_def size_bv_def ByteView_default_def)

text \<open>
  C10, amended: for every view \<open>v\<close> and every offset and count whose sum (in \<^verbatim>\<open>size_t\<close>
  arithmetic) equals \<^verbatim>\<open>v.size()\<close>, \<^verbatim>\<open>v.subspan(offset, count)\<close> fails its assertion,
  because the assertion is the strict \<^verbatim>\<open>offset + count < count_\<close>; \<^verbatim>\<open>first(size())\<close>
  is accepted for every view, and \<^verbatim>\<open>last(size())\<close> is accepted exactly when the view
  is not empty.
\<close>

theorem C10_subspan_rejects_full_extent:
  "offset + count = size_bv v \<Longrightarrow>
     subspan v offset count = None \<and>
     first_bv v (size_bv v) = Some v \<and>
     (last_bv v (size_bv v) \<noteq> None \<longleftrightarrow> size_bv v \<noteq> 0)"
  by (simp add: subspan_def first_bv_def last_bv_def size_bv_def)

theorem C10_subspan_rejects_full_extent_witness:
  "(6::u64) + 4 = size_bv \<lparr>bv_data = 0, bv_count = 10\<rparr> \<and>
   subspan \<lparr>bv_data = 0, bv_count = 10\<rparr> 6 4 = None \<and>
   first_bv \<lparr>bv_data = 0, bv_count = 10\<rparr> 10 = Some \<lparr>bv_data = 0, bv_count = 10\<rparr> \<and>
   last_bv \<lparr>bv_data = 0, bv_count = 10\<rparr> 10 \<noteq> None"
  using C10_subspan_rejects_full_extent [of 6 4 "\<lparr>bv_data = 0, bv_count = 10\<rparr>"]
  by (simp add: size_bv_def)

section \<open>Properties of the authentication\<close>

lemma std_equal_same_length:
  "length xs = length ys \<Longrightarrow> std_equal xs ys = Some (xs = ys)"
  by (induction xs ys rule: list_induct2) auto

text \<open>
  On two arrays of the same length \<^verbatim>\<open>std::equal\<close> is equality. It is not on ranges of
  different lengths: a second range that is longer is compared on its prefix only, and a
  shorter one that agrees as far as it goes is read past its end.
\<close>

lemma std_equal_longer: "std_equal xs (xs @ zs) = Some True"
  by (induction xs) auto

lemma std_equal_shorter:
  "length ys < length xs \<Longrightarrow> ys = take (length ys) xs \<Longrightarrow> std_equal xs ys = None"
proof (induction xs ys rule: std_equal.induct)
  case (1 ys)
  then show ?case by simp
next
  case (2 x xs)
  then show ?case by simp
next
  case (3 x xs y ys)
  then show ?case by auto
qed

lemma OnConfirmation_decoded:
  assumes dec: "DecodeAuthSpake2Confirmation ext buffer = (res, c)"
    and ok: "0 \<le> res"
    and len: "length (shared_key (auth_data a)) = length (confirmation_value c)"
  shows "OnConfirmation ext a iid buffer =
           Returns (Inr (nat res), a,
             if confirmation_value c = shared_key (auth_data a)
             then [WriteStatus \<lparr>result = kAuthenticated\<rparr>, OnAuthenticationSucceed iid]
             else [WriteStatus \<lparr>result = kProofInvalid\<rparr>,
                   OnAuthenticationFailed iid
                     \<lparr>code = kInvalidAnswer,
                      message = ''Authentication failed: shared key mismatch.''\<rparr>])"
proof -
  have eq: "std_equal (shared_key (auth_data a)) (confirmation_value c)
              = Some (shared_key (auth_data a) = confirmation_value c)"
    using len by (rule std_equal_same_length)
  show ?thesis
    using dec ok by (auto simp: OnConfirmation_def eq)
qed

text \<open>
  C6: a Spake2Confirmation message that decodes successfully (so the instance id is the
  consumer's and a sender is set) is compared byte for byte with the stored 64-byte
  shared key. If all 64 bytes agree the consumer writes Status{Authenticated} and
  notifies OnAuthenticationSucceed; if any byte differs it writes Status{ProofInvalid}
  and notifies OnAuthenticationFailed with the error code InvalidAnswer.
\<close>

theorem C6_confirmation_compared_byte_exactly:
  assumes "instance_id a = iid"
    and "sender (auth_data a) \<noteq> None"
    and "DecodeAuthSpake2Confirmation ext buffer = (res, c)"
    and "0 \<le> res"
    and "length (shared_key (auth_data a)) = 64"
    and "length (confirmation_value c) = 64"
  shows "OnStreamMessage ext a iid kAuthSpake2Confirmation buffer =
           Returns (Inr (nat res), a,
             if confirmation_value c = shared_key (auth_data a)
             then [WriteStatus \<lparr>result = kAuthenticated\<rparr>, OnAuthenticationSucceed iid]
             else [WriteStatus \<lparr>result = kProofInvalid\<rparr>,
                   OnAuthenticationFailed iid
                     \<lparr>code = kInvalidAnswer,
                      message = ''Authentication failed: shared key mismatch.''\<rparr>])"
  using assms by (simp add: OnStreamMessage_def OnConfirmation_decoded)





lemma example_bob_fields:
  "instance_id example_bob = 7" "sender (auth_data example_bob) = Some 0" "auth_token (auth_data example_bob) = ''T''"
  "password (auth_data example_bob) = ''0000''" "shared_key (auth_data example_bob) = replicate 64 0"
  "fingerprint example_bob = ''AQ''"
  by (simp_all add: example_bob_def SetPassword_def SetAuthenticationToken_def SetSender_def AuthenticationBase_init_def)

lemma example_decode_confirmation:
  "length b = 64 \<Longrightarrow> DecodeAuthSpake2Confirmation example_externals b = (65, \<lparr>confirmation_value = b\<rparr>)"
  by (simp add: example_externals_def)

theorem C6_confirmation_compared_byte_exactly_witness:
  "OnStreamMessage example_externals example_bob 7 kAuthSpake2Confirmation (replicate 64 0) =
     Returns (Inr 65, example_bob, [WriteStatus \<lparr>result = kAuthenticated\<rparr>, OnAuthenticationSucceed 7])
   \<and> OnStreamMessage example_externals example_bob 7 kAuthSpake2Confirmation (replicate 64 1) =
     Returns (Inr 65, example_bob, [WriteStatus \<lparr>result = kProofInvalid\<rparr>,
                   OnAuthenticationFailed 7
                     \<lparr>code = kInvalidAnswer,
                      message = ''Authentication failed: shared key mismatch.''\<rparr>])"
proof -
  have s: "sender (auth_data example_bob) \<noteq> None" by (simp add: example_bob_fields)
  have k: "length (shared_key (auth_data example_bob)) = 64" by (simp add: example_bob_fields)
  have d0: "DecodeAuthSpake2Confirmation example_externals (replicate 64 0) = (65, \<lparr>confirmation_value = replicate 64 0\<rparr>)"
    by (simp add: example_decode_confirmation)
  have d1: "DecodeAuthSpake2Confirmation example_externals (replicate 64 1) = (65, \<lparr>confirmation_value = replicate 64 1\<rparr>)"
    by (simp add: example_decode_confirmation)
  have l0: "length (confirmation_value \<lparr>confirmation_value = replicate 64 (0::u8)\<rparr>) = 64" by simp
  have l1: "length (confirmation_value \<lparr>confirmation_value = replicate 64 (1::u8)\<rparr>) = 64" by simp
  have p: "(0::int) \<le> 65" by simp
  show ?thesis
    using C6_confirmation_compared_byte_exactly [OF example_bob_fields(1) s d0 p k l0]
      C6_confirmation_compared_byte_exactly [OF example_bob_fields(1) s d1 p k l1]
    by (simp add: example_bob_fields)
qed


lemma OnHandshake_token_mismatch:
  assumes "DecodeAuthSpake2Handshake ext buffer = (res, h)" and "0 \<le> res"
    and "\<not> has_token (initiation_token h) \<or> token (initiation_token h) \<noteq> auth_token (auth_data a)"
  shows "OnHandshake ext a iid buffer =
           Returns (Inr (nat res), a,
             [OnAuthenticationFailed iid
                \<lparr>code = kInvalidAnswer,
                 message = ''Authentication failed: initiation token mismatch.''\<rparr>])"
  using assms by (auto simp: OnHandshake_def Let_def)

lemma OnHandshake_wrong_status:
  assumes "DecodeAuthSpake2Handshake ext buffer = (res, h)" and "0 \<le> res"
    and "has_token (initiation_token h)" and "token (initiation_token h) = auth_token (auth_data a)"
    and "psk_status h \<noteq> kPskShown" and "psk_status h \<noteq> kPskInput"
  shows "OnHandshake ext a iid buffer =
           Returns (Inr (nat res), a,
             [OnAuthenticationFailed iid
                \<lparr>code = kInvalidAnswer,
                 message = ''Authentication failed: receive wrong PSK status.''\<rparr>])"
  using assms by (auto simp: OnHandshake_def Let_def)

text \<open>
  C7: for a Spake2Handshake message that decodes successfully, an absent or different
  initiation token makes the consumer report OnAuthenticationFailed with InvalidAnswer
  and the message "Authentication failed: initiation token mismatch."; a matching token
  with the status NeedsPresentation makes it report InvalidAnswer with the message
  "Authentication failed: receive wrong PSK status.". Nothing is written to the peer
  and the state is unchanged in both cases.
\<close>

theorem C7_handshake_rejections:
  assumes "instance_id a = iid"
    and "sender (auth_data a) \<noteq> None"
    and "DecodeAuthSpake2Handshake ext buffer = (res, h)"
    and "0 \<le> res"
  shows "(\<not> has_token (initiation_token h) \<or>
            token (initiation_token h) \<noteq> auth_token (auth_data a) \<longrightarrow>
          OnStreamMessage ext a iid kAuthSpake2Handshake buffer =
            Returns (Inr (nat res), a,
              [OnAuthenticationFailed iid
                 \<lparr>code = kInvalidAnswer,
                  message = ''Authentication failed: '' @ ''initiation token mismatch'' @ ''.''\<rparr>]))
       \<and> (has_token (initiation_token h) \<and>
            token (initiation_token h) = auth_token (auth_data a) \<and>
            psk_status h = kPskNeedsPresentation \<longrightarrow>
          OnStreamMessage ext a iid kAuthSpake2Handshake buffer =
            Returns (Inr (nat res), a,
              [OnAuthenticationFailed iid
                 \<lparr>code = kInvalidAnswer,
                  message = ''Authentication failed: '' @ ''receive wrong PSK status'' @ ''.''\<rparr>]))"
proof -
  have ne: "kPskNeedsPresentation \<noteq> kPskShown" "kPskNeedsPresentation \<noteq> kPskInput"
    by (simp_all add: kPskNeedsPresentation_def kPskShown_def kPskInput_def)
  have dispatch: "OnStreamMessage ext a iid kAuthSpake2Handshake buffer = OnHandshake ext a iid buffer"
    using assms(1,2) by (auto simp: OnStreamMessage_def)
  show ?thesis
    using OnHandshake_token_mismatch [OF assms(3,4), of a iid]
      OnHandshake_wrong_status [OF assms(3,4), of a iid] ne
    by (auto simp: dispatch)
qed

lemma example_decode_handshake:
  "DecodeAuthSpake2Handshake example_externals (s # t) =
     (int (length (s # t)),
      \<lparr>initiation_token = \<lparr>has_token = (t \<noteq> []), token = map (\<lambda>w. if w = 84 then CHR ''T'' else CHR ''U'') t\<rparr>,
       psk_status = of_nat (unat s), public_value = [4, 1, 2]\<rparr>)"
  by (simp add: example_externals_def)

theorem C7_handshake_rejections_witness:
  "OnStreamMessage example_externals example_bob 7 kAuthSpake2Handshake [1, 85] =
     Returns (Inr 2, example_bob,
       [OnAuthenticationFailed 7
          \<lparr>code = kInvalidAnswer,
           message = ''Authentication failed: initiation token mismatch.''\<rparr>])
   \<and> OnStreamMessage example_externals example_bob 7 kAuthSpake2Handshake [0, 84] =
     Returns (Inr 2, example_bob,
       [OnAuthenticationFailed 7
          \<lparr>code = kInvalidAnswer,
           message = ''Authentication failed: receive wrong PSK status.''\<rparr>])"
proof -
  have s: "sender (auth_data example_bob) \<noteq> None" by (simp add: example_bob_fields)
  have p: "(0::int) \<le> int (length [1::u8, 85])" "(0::int) \<le> int (length [0::u8, 84])" by simp_all
  show ?thesis
    using C7_handshake_rejections [OF example_bob_fields(1) s example_decode_handshake p(1)]
      C7_handshake_rejections [OF example_bob_fields(1) s example_decode_handshake p(2)]
    by (simp add: example_bob_fields kPskNeedsPresentation_def)
qed

text \<open>
  C8: the shared key is computed on the curve NIST P-256: the key object is made for
  \<open>NID_X9_62_prime256v1\<close>, and the private scalar, the peer's point and the ECDH secret
  are all taken on that curve. Where the library calls on P-256 succeed (a key is
  returned, the scalar is accepted as a private key, the peer's public value parses as a
  point, ECDH writes \<open>n\<close> bytes with \<open>0 < n \<le> 32\<close> into its buffer of 32 bytes), the
  shared key that a party computes from its fingerprint, the peer's public value and the
  password is the SHA-512 hash of the P-256 ECDH secret followed by the password bytes,
  where the private scalar of the ECDH is the number read from the bytes that
  base64-decoding the fingerprint gives. It is 64 bytes long, the length of a SHA-512
  digest. Nothing is assumed about the library on any other curve.
\<close>

theorem C8_shared_key:
  assumes key: "EC_KEY_new_by_curve_name ext NID_X9_62_prime256v1"
    and priv: "EC_KEY_set_private_key ext NID_X9_62_prime256v1
                 (BN_bin2bn (snd (base64_Decode ext fp)))"
    and pub: "o2i_ECPublicKey ext NID_X9_62_prime256v1 peer_public_value = Some peer_point"
    and ecdh: "ECDH_compute_key ext NID_X9_62_prime256v1
                 (BN_bin2bn (snd (base64_Decode ext fp))) peer_point = (n, secret)"
    and n: "0 < n" "n \<le> 32" and len: "length secret = 32"
    and sha: "\<forall>x. length (SHA512 ext x) = 64"
  shows "ComputeSharedKey ext (ComputePrivateKey ext fp) peer_public_value pw =
           Returns (SHA512 ext (take (nat n) secret @ string_bytes pw))
       \<and> (\<forall>k. ComputeSharedKey ext (ComputePrivateKey ext fp) peer_public_value pw = Returns k
              \<longrightarrow> length k = 64)"
proof -
  have w: "unat (word_of_int n :: u64) = nat n"
    using n by (simp add: unat_eq_nat_uint uint_word_of_int take_bit_int_eq_self)
  have pos: "(word_of_int n :: u64) > 0"
    using n w by (simp add: word_less_nat_alt)
  have eq: "ComputeSharedKey ext (ComputePrivateKey ext fp) peer_public_value pw =
           Returns (SHA512 ext (take (nat n) secret @ string_bytes pw))"
    using key priv pub ecdh n len pos
    by (simp add: ComputeSharedKey_def ComputePrivateKey_def Let_def w
        SHA512_Init_def SHA512_Update_def SHA512_Final_def)
  show ?thesis
    using sha by (simp add: eq)
qed

lemma example_fields:
  "base64_Decode example_externals s = (True, map of_char s)"
  "EC_KEY_new_by_curve_name example_externals nid"
  "EC_KEY_set_private_key example_externals nid m = (0 < m)"
  "o2i_ECPublicKey example_externals nid [4, 1, 2] = Some (1, 2)"
  "ECDH_compute_key example_externals NID_X9_62_prime256v1 m p =
     (32, replicate 32 (of_nat (m * fst p)))"
  "SHA512 example_externals b = take 64 (b @ replicate 64 0)"
  by (simp_all add: example_externals_def)

theorem C8_shared_key_witness:
  "ComputeSharedKey example_externals (ComputePrivateKey example_externals ''AQ'') [4, 1, 2] ''0000'' =
     Returns (replicate 32 81 @ [48, 48, 48, 48] @ replicate 28 0)"
proof -
  have bn: "BN_bin2bn [65, 81] = 16721"
    by (simp add: BN_bin2bn_def)
  have key: "EC_KEY_new_by_curve_name example_externals NID_X9_62_prime256v1"
    by (simp add: example_fields)
  have priv: "EC_KEY_set_private_key example_externals NID_X9_62_prime256v1
                (BN_bin2bn (snd (base64_Decode example_externals ''AQ'')))"
    by (simp add: bn example_fields)
  have ecdh: "ECDH_compute_key example_externals NID_X9_62_prime256v1
                (BN_bin2bn (snd (base64_Decode example_externals ''AQ''))) (1, 2)
                = (32, replicate 32 81)"
    by (simp add: bn example_fields)
  have n: "(0::int) < 32" "(32::int) \<le> 32" by simp_all
  have len: "length (replicate 32 (81::u8)) = 32" by simp
  have sha: "\<forall>x. length (SHA512 example_externals x) = 64" by (auto simp: example_fields)
  show ?thesis
    using C8_shared_key [OF key priv example_fields(4) ecdh n len sha, of "''0000''"]
    by (auto simp: example_fields string_bytes_def)
qed

section \<open>Properties of the endpoint lifecycle\<close>

lemma erase_all_Nil [simp]: "erase_all ks [] = Returns []"
  by (induction ks) (simp_all add: map_find_def)



text \<open>With no established connection there is nothing to destroy, and the pass returns.\<close>

lemma Cleanup_empty:
  "connections st = [] \<Longrightarrow>
     Cleanup st = Returns (st\<lparr>connections := [], delete_connections := []\<rparr>,
                    if state st \<noteq> Client_kStopped then [CleanupScheduled] else [])"
  by (simp add: Cleanup_def)


lemma Cleanup_events_running:
  "state st \<noteq> Client_kStopped \<Longrightarrow> Cleanup st = Returns (st1, evs) \<Longrightarrow>
     \<exists>evs0. evs = evs0 @ [CleanupScheduled]"
  by (auto simp: Cleanup_def split: prod.splits outcome.splits)


lemma Stop_result:
  assumes "state c \<noteq> Client_kStopped"
  shows "Stop c =
    Returns (True,
     c\<lparr>pending_connections := [], connections := [], instance_map := Map.empty,
       next_instance_number := 1, instance_request_ids := Map.empty,
       state := Client_kStopped, delete_connections := []\<rparr>,
     close_pending (pending_connections c) @ close_connections (connections c) @ [OnStopped])"
  using assms
  by (simp add: Stop_def CloseAllConnections_def Cleanup_empty Reset_def)


lemma Stop_cases:
  "Stop st = Returns (r, st1, evs) \<Longrightarrow>
     (state st = Client_kStopped \<and> st1 = st) \<or>
     (state st1 = Client_kStopped \<and> connections st1 = [] \<and> pending_connections st1 = [])"
proof (cases "state st = Client_kStopped")
  case True
  assume "Stop st = Returns (r, st1, evs)"
  then show ?thesis using True by (simp add: Stop_def)
next
  case False
  assume "Stop st = Returns (r, st1, evs)"
  then show ?thesis using False by (auto simp: Stop_result)
qed
















lemma example_client_two_waiters_fields:
  "state example_client_two_waiters = Client_kRunning"
  "pending_connections example_client_two_waiters =
     [(''X'', \<lparr>data = ServiceConnectionData_new 0 ''X'', callbacks = [(1, 0), (2, 1)]\<rparr>)]"
  "connections example_client_two_waiters = []"
  "next_instance_number example_client_two_waiters = 1"
  "next_request_id example_client_two_waiters = 3"
  "instance_map example_client_two_waiters ''X'' = None"
  by (simp_all add: example_client_two_waiters_def client_after_def example_factory_def
      example_info_def QuicClient_init_def OnReceiverAdded_def Start_def Cleanup_def
      Connect_def CreatePendingConnection_def StartConnectionRequest_def map_find_def
      map_emplace_def map_modify_def Let_def)


section \<open>Promotion of pending connections\<close>

lemma map_find_insert_sorted:
  "map_find k m = None \<Longrightarrow>
     map_find k' (insert_sorted k v m) = (if k' = k then Some v else map_find k' m)"
  by (induction m) (auto simp: map_find_def)

lemma map_find_emplace:
  "map_find k m = None \<Longrightarrow>
     map_find k' (map_emplace k v m) = (if k' = k then Some v else map_find k' m)"
  by (simp add: map_emplace_def map_find_insert_sorted)

lemma map_find_erase:
  "map_find k' (map_erase k m) = (if k' = k then None else map_find k' m)"
  by (induction m) (auto simp: map_find_def map_erase_def)

lemma map_find_modify:
  "map_find k' (map_modify k f m) =
     (if k' = k then map_option f (map_find k m) else map_find k' m)"
  by (induction m) (auto simp: map_find_def map_modify_def)

lemma length_map_modify [simp]: "length (map_modify k f m) = length m"
  by (simp add: map_modify_def)

lemma FromExisting_fields:
  "fst (FromExisting d n) = \<lparr>pc_instance_id = n, pc_id = next_stream_id d\<rparr>"
  "next_stream_id (snd (FromExisting d n)) = next_stream_id d + 1"
  "connection (snd (FromExisting d n)) = connection d"
  "instance_name (snd (FromExisting d n)) = instance_name d"
  by (simp_all add: FromExisting_def AddStreamPair_def Let_def)

lemma open_waiters_events:
  "open_waiters n cbs d = (evs, d') \<Longrightarrow>
     length evs = length cbs \<and>
     (\<forall>i < length cbs.
        evs ! i = OnConnectionOpened (snd (cbs ! i)) (fst (cbs ! i))
                    \<lparr>pc_instance_id = n, pc_id = next_stream_id d + of_nat i\<rparr>) \<and>
     connection d' = connection d \<and> instance_name d' = instance_name d"
proof (induction cbs arbitrary: d evs d')
  case Nil
  then show ?case by simp
next
  case (Cons request rest)
  obtain pc d1 where fe: "FromExisting d n = (pc, d1)" by (cases "FromExisting d n")
  obtain evs2 d2 where ow: "open_waiters n rest d1 = (evs2, d2)"
    by (cases "open_waiters n rest d1")
  from Cons.prems fe ow
  have evs: "evs = OnConnectionOpened (snd request) (fst request) pc # evs2" and d': "d' = d2"
    by simp_all
  have pc: "pc = \<lparr>pc_instance_id = n, pc_id = next_stream_id d\<rparr>"
    and d1: "next_stream_id d1 = next_stream_id d + 1"
       "connection d1 = connection d" "instance_name d1 = instance_name d"
    using FromExisting_fields [of d n] fe by simp_all
  note IH = Cons.IH [OF ow]
  have nth: "evs ! i = OnConnectionOpened (snd ((request # rest) ! i)) (fst ((request # rest) ! i))
                    \<lparr>pc_instance_id = n, pc_id = next_stream_id d + of_nat i\<rparr>"
    if "i < length (request # rest)" for i
  proof (cases i)
    case 0
    then show ?thesis by (simp add: evs pc)
  next
    case (Suc j)
    with that have "j < length rest" by simp
    with IH have "evs2 ! j = OnConnectionOpened (snd (rest ! j)) (fst (rest ! j))
                    \<lparr>pc_instance_id = n, pc_id = next_stream_id d1 + of_nat j\<rparr>"
      by blast
    then show ?thesis by (simp add: evs Suc d1 add.assoc add.commute)
  qed
  show ?case using IH nth by (simp add: evs d' d1)
qed

lemma OnCryptoHandshakeComplete_promotes:
  assumes pend: "map_find name (pending_connections st) = Some p"
    and fresh: "map_find (next_instance_number st) (connections st) = None"
  shows "\<exists>st1 evs d.
    OnCryptoHandshakeComplete st name = Returns (next_instance_number st, st1, evs) \<and>
    map_find name (pending_connections st1) = None \<and>
    map_find (next_instance_number st) (connections st1) = Some d \<and>
    connection d = connection (data p) \<and>
    instance_map st1 name = Some (next_instance_number st) \<and>
    next_instance_number st1 = next_instance_number st + 1 \<and>
    length evs = length (callbacks p) \<and>
    (\<forall>i < length (callbacks p).
       evs ! i = OnConnectionOpened (snd (callbacks p ! i)) (fst (callbacks p ! i))
                   \<lparr>pc_instance_id = next_instance_number st,
                    pc_id = next_stream_id (data p) + of_nat i\<rparr>)"
proof -
  obtain evs d where ow:
    "open_waiters (next_instance_number st) (callbacks p) (data p) = (evs, d)"
    by (cases "open_waiters (next_instance_number st) (callbacks p) (data p)")
  note ev = open_waiters_events [OF ow]
  have "OnCryptoHandshakeComplete st name =
          Returns (next_instance_number st,
            st\<lparr>next_instance_number := next_instance_number st + 1,
               instance_map := (instance_map st)(name \<mapsto> next_instance_number st),
               connections := map_emplace (next_instance_number st) d (connections st),
               pending_connections := map_erase name (pending_connections st)\<rparr>,
            evs)"
    using pend fresh ow by (simp add: OnCryptoHandshakeComplete_def Let_def)
  then show ?thesis
    using ev fresh by (simp add: map_find_erase map_find_emplace)
qed

lemma Connect_coalesces:
  assumes pend: "map_find name (pending_connections st) = Some p"
    and run: "state st = Client_kRunning" and new: "instance_map st name = None"
  shows "\<exists>st2.
    Connect fac st name cb = Returns ((True, Some (next_request_id st)), st2, []) \<and>
    map_find name (pending_connections st2) =
      Some (p\<lparr>callbacks := callbacks p @ [(next_request_id st, cb)]\<rparr>) \<and>
    length (pending_connections st2) = length (pending_connections st) \<and>
    connections st2 = connections st \<and>
    next_request_id st2 = next_request_id st + 1"
  using assms
  by (simp add: Connect_def CreatePendingConnection_def Let_def map_find_modify)

text \<open>
  C1: a connect request to an instance that already has a pending entry is added to that
  entry as a further waiter (no second entry, no second connection). When the handshake
  of a pending entry completes and the next instance number is not yet a key of the
  established table, the entry leaves the pending table, its connection is in the
  established table under that number, the instance map sends the name to the number,
  the counter moves on by one, and the waiters receive OnConnectionOpened one after the
  other in the order of the list, each with its own request id and a protocol
  connection that carries the new instance number (and the next stream id).
\<close>

theorem C1_handshake_opens_waiters_in_order:
  assumes pend: "map_find name (pending_connections st) = Some p"
    and fresh: "map_find (next_instance_number st) (connections st) = None"
  shows "(\<exists>st1 evs d.
      OnCryptoHandshakeComplete st name = Returns (next_instance_number st, st1, evs) \<and>
      map_find name (pending_connections st1) = None \<and>
      map_find (next_instance_number st) (connections st1) = Some d \<and>
      connection d = connection (data p) \<and>
      instance_map st1 name = Some (next_instance_number st) \<and>
      next_instance_number st1 = next_instance_number st + 1 \<and>
      length evs = length (callbacks p) \<and>
      (\<forall>i < length (callbacks p).
         evs ! i = OnConnectionOpened (snd (callbacks p ! i)) (fst (callbacks p ! i))
                     \<lparr>pc_instance_id = next_instance_number st,
                      pc_id = next_stream_id (data p) + of_nat i\<rparr>)) \<and>
    (state st = Client_kRunning \<and> instance_map st name = None \<longrightarrow>
      (\<exists>st2.
        Connect fac st name cb = Returns ((True, Some (next_request_id st)), st2, []) \<and>
        map_find name (pending_connections st2) =
          Some (p\<lparr>callbacks := callbacks p @ [(next_request_id st, cb)]\<rparr>) \<and>
        length (pending_connections st2) = length (pending_connections st) \<and>
        connections st2 = connections st \<and>
        next_request_id st2 = next_request_id st + 1))"
  using OnCryptoHandshakeComplete_promotes [OF pend fresh] Connect_coalesces [OF pend]
  by blast

theorem C1_handshake_opens_waiters_in_order_witness:
  "map_find ''X'' (pending_connections example_client_two_waiters) =
     Some \<lparr>data = ServiceConnectionData_new 0 ''X'', callbacks = [(1, 0), (2, 1)]\<rparr> \<and>
   map_find (next_instance_number example_client_two_waiters)
     (connections example_client_two_waiters) = None \<and>
   (\<exists>st1 evs.
      OnCryptoHandshakeComplete example_client_two_waiters ''X'' = Returns (1, st1, evs) \<and>
      map_find ''X'' (pending_connections st1) = None \<and>
      map_find 1 (connections st1) \<noteq> None \<and>
      evs = [OnConnectionOpened 0 1 \<lparr>pc_instance_id = 1, pc_id = 0\<rparr>,
             OnConnectionOpened 1 2 \<lparr>pc_instance_id = 1, pc_id = 1\<rparr>])"
proof -
  let ?p = "\<lparr>data = ServiceConnectionData_new 0 ''X'', callbacks = [(1::u64, 0::nat), (2, 1)]\<rparr>"
  have pend: "map_find ''X'' (pending_connections example_client_two_waiters) = Some ?p"
    by (simp add: example_client_two_waiters_fields map_find_def)
  have fresh: "map_find (next_instance_number example_client_two_waiters)
                 (connections example_client_two_waiters) = None"
    by (simp add: example_client_two_waiters_fields map_find_def)
  from C1_handshake_opens_waiters_in_order [OF pend fresh, of example_factory 0]
  obtain st1 evs d where
    r: "OnCryptoHandshakeComplete example_client_two_waiters ''X'' =
          Returns (next_instance_number example_client_two_waiters, st1, evs)"
    and p: "map_find ''X'' (pending_connections st1) = None"
    and c: "map_find (next_instance_number example_client_two_waiters) (connections st1) = Some d"
    and l: "length evs = length (callbacks ?p)"
    and e: "\<forall>i < length (callbacks ?p).
         evs ! i = OnConnectionOpened (snd (callbacks ?p ! i)) (fst (callbacks ?p ! i))
                     \<lparr>pc_instance_id = next_instance_number example_client_two_waiters,
                      pc_id = next_stream_id (data ?p) + of_nat i\<rparr>"
    by blast
  have e0: "evs ! 0 = OnConnectionOpened 0 1 \<lparr>pc_instance_id = 1, pc_id = 0\<rparr>"
    using e [rule_format, of 0]
    by (simp add: example_client_two_waiters_fields ServiceConnectionData_new_def)
  have e1: "evs ! 1 = OnConnectionOpened 1 2 \<lparr>pc_instance_id = 1, pc_id = 1\<rparr>"
    using e [rule_format, of 1]
    by (simp add: example_client_two_waiters_fields ServiceConnectionData_new_def)
  have "length evs = 2" using l by simp
  then have evs: "evs = [evs ! 0, evs ! 1]"
    by (cases evs; cases "tl evs") auto
  show ?thesis
    using pend fresh r p c evs e0 e1
    by (auto simp: example_client_two_waiters_fields)
qed

section \<open>Instance ids\<close>

lemma Cleanup_counter:
  "Cleanup st = Returns (st1, evs) \<Longrightarrow> next_instance_number st1 = next_instance_number st"
  by (auto simp: Cleanup_def split: prod.splits outcome.splits)

lemma Start_counter:
  "Start st = Returns (r, st1, evs) \<Longrightarrow> next_instance_number st1 = next_instance_number st"
  by (auto simp: Start_def split: if_splits outcome.splits dest: Cleanup_counter)

lemma CreateProtocolConnection_counter:
  "CreateProtocolConnection st n = Some (pc, st1) \<Longrightarrow>
     next_instance_number st1 = next_instance_number st"
  by (auto simp: CreateProtocolConnection_def split: if_splits option.splits prod.splits)

lemma StartConnectionRequest_counter:
  "StartConnectionRequest fac st name cb = Returns (r, st1, evs) \<Longrightarrow>
     next_instance_number st1 = next_instance_number st"
  by (auto simp: StartConnectionRequest_def Let_def split: option.splits list.splits if_splits)

lemma CreatePendingConnection_counter:
  "CreatePendingConnection fac st name cb = Returns (r, st1, evs) \<Longrightarrow>
     next_instance_number st1 = next_instance_number st"
  by (auto simp: CreatePendingConnection_def Let_def
      dest: StartConnectionRequest_counter
      split: option.splits outcome.splits if_splits)

lemma Connect_counter:
  "Connect fac st name cb = Returns (r, st1, evs) \<Longrightarrow>
     next_instance_number st1 = next_instance_number st"
  by (auto simp: Connect_def Let_def
      dest: CreatePendingConnection_counter CreateProtocolConnection_counter
      split: option.splits if_splits)

lemma OnCryptoHandshakeComplete_counter:
  "OnCryptoHandshakeComplete st name = Returns (n, st1, evs) \<Longrightarrow>
     (n = 0 \<and> next_instance_number st1 = next_instance_number st) \<or>
     (n = next_instance_number st \<and> next_instance_number st1 = next_instance_number st + 1)"
  by (auto simp: OnCryptoHandshakeComplete_def Let_def
      split: option.splits if_splits prod.splits)

lemma client_step_counter:
  assumes step: "client_step fac st c = Returns (st1, evs, ids)"
    and c: "c \<noteq> Call_Stop" and n: "next_instance_number st \<noteq> 0"
  shows "(ids = [] \<and> next_instance_number st1 = next_instance_number st) \<or>
         (ids = [next_instance_number st] \<and>
          next_instance_number st1 = next_instance_number st + 1)"
proof (cases c)
  case Call_Start
  then show ?thesis using step by (auto dest: Start_counter split: outcome.splits)
next
  case Call_Stop
  then show ?thesis using c by simp
next
  case Call_Cleanup
  then show ?thesis using step by (auto dest: Cleanup_counter split: outcome.splits)
next
  case (Call_Connect name cb)
  then show ?thesis using step
    by (auto dest: Connect_counter split: outcome.splits)
next
  case (Call_CreateProtocolConnection k)
  then show ?thesis using step
    by (auto dest: CreateProtocolConnection_counter split: option.splits)
next
  case (Call_CancelConnectRequest r)
  then show ?thesis using step by (auto simp: CancelConnectRequest_def)
next
  case (Call_OnCryptoHandshakeComplete name)
  then show ?thesis using step n
    by (auto dest: OnCryptoHandshakeComplete_counter split: outcome.splits if_splits)
next
  case (Call_OnConnectionClosed k)
  then show ?thesis using step by (auto simp: OnConnectionClosed_def split: option.splits)
next
  case (Call_OnStreamClose k sid)
  then show ?thesis using step by (auto simp: OnStreamClose_def)
next
  case (Call_OnReceiverAdded info)
  then show ?thesis using step by (auto simp: OnReceiverAdded_def split: if_splits)
next
  case (Call_OnReceiverChanged info)
  then show ?thesis using step by (auto simp: OnReceiverChanged_def)
next
  case (Call_OnReceiverRemoved info)
  then show ?thesis using step by (auto simp: OnReceiverRemoved_def)
next
  case Call_OnAllReceiversRemoved
  then show ?thesis using step by (auto simp: OnAllReceiversRemoved_def)
qed

lemma unat_inc:
  fixes n :: u64
  assumes "unat n + 1 < 2 ^ 64"
  shows "unat (n + 1) = unat n + 1"
  using assms unat_add_lem [of n 1] by simp

lemma client_run_ids:
  "client_run fac st cs = Returns (st1, evs, ids) \<Longrightarrow> Call_Stop \<notin> set cs \<Longrightarrow>
   next_instance_number st \<noteq> 0 \<Longrightarrow> unat (next_instance_number st) + length cs < 2 ^ 64 \<Longrightarrow>
     map unat ids = [unat (next_instance_number st) ..< unat (next_instance_number st) + length ids]
     \<and> length ids \<le> length cs"
proof (induction cs arbitrary: st st1 evs ids)
  case Nil
  then show ?case by simp
next
  case (Cons c cs)
  from Cons.prems(1) obtain sta evsa idsa stb evsb idsb where
    step: "client_step fac st c = Returns (sta, evsa, idsa)"
    and run: "client_run fac sta cs = Returns (stb, evsb, idsb)"
    and ids: "ids = idsa @ idsb"
    by (auto split: outcome.splits)
  from Cons.prems(2) have c: "c \<noteq> Call_Stop" and cs: "Call_Stop \<notin> set cs" by auto
  from client_step_counter [OF step c Cons.prems(3)]
  consider (none) "idsa = []" "next_instance_number sta = next_instance_number st"
    | (one) "idsa = [next_instance_number st]"
        "next_instance_number sta = next_instance_number st + 1"
    by blast
  then show ?case
  proof cases
    case none
    have "map unat idsb = [unat (next_instance_number sta) ..<
                            unat (next_instance_number sta) + length idsb]
          \<and> length idsb \<le> length cs"
      using Cons.IH [OF run cs] Cons.prems(3,4) none by simp
    then show ?thesis using none ids by simp
  next
    case one
    have u: "unat (next_instance_number sta) = unat (next_instance_number st) + 1"
      using one Cons.prems(4) unat_inc [of "next_instance_number st"] by simp
    then have nz: "next_instance_number sta \<noteq> 0"
      by (metis Suc_eq_plus1 nat.distinct(1) unat_0)
    have "map unat idsb = [unat (next_instance_number sta) ..<
                            unat (next_instance_number sta) + length idsb]
          \<and> length idsb \<le> length cs"
      using Cons.IH [OF run cs nz] Cons.prems(4) u by simp
    then show ?thesis using one ids u by (simp add: upt_rec)
  qed
qed

lemma consecutive_words:
  fixes ids :: "u64 list"
  assumes "map unat ids = [a ..< a + length ids]" and "0 < a"
  shows "sorted_wrt (<) ids \<and> distinct ids \<and> 0 \<notin> set ids"
proof -
  have s: "sorted_wrt (<) (map unat ids)" using assms(1) by simp
  have "sorted_wrt (\<lambda>x y. unat x < unat y) ids"
    using s by (simp add: sorted_wrt_map)
  moreover have "(\<lambda>x y :: u64. unat x < unat y) = (<)"
    by (intro ext) (simp add: word_less_nat_alt)
  ultimately have 1: "sorted_wrt (<) ids" by simp
  have "distinct (map unat ids)" using assms(1) by simp
  then have 2: "distinct ids" by (simp add: distinct_map)
  have "0 \<notin> set (map unat ids)" using assms by simp
  then have 3: "0 \<notin> set ids" by force
  show ?thesis using 1 2 3 by simp
qed

text \<open>
  C4, as stated: ids are never reused, also across Stop and Start. The run below
  connects to "X", completes the handshake, stops and starts the client, and connects
  and completes the handshake again: both handshakes issue the instance id 1, because
  Stop resets the counter to 1.
\<close>

theorem C4_id_reused_after_restart_counterexample:
  "issued_ids example_factory (QuicClient_init [(0, 0)])
     [Call_OnReceiverAdded (example_info ''X''), Call_Start, Call_Connect ''X'' 0,
      Call_OnCryptoHandshakeComplete ''X'', Call_Stop, Call_Start, Call_Connect ''X'' 0,
      Call_OnCryptoHandshakeComplete ''X''] = Some [1, 1]"
  by (simp add: issued_ids_def example_factory_def example_info_def QuicClient_init_def
      OnReceiverAdded_def Start_def Stop_def Cleanup_def Connect_def
      CreatePendingConnection_def StartConnectionRequest_def map_find_def map_emplace_def
      map_modify_def ServiceConnectionData_new_def OnCryptoHandshakeComplete_def
      FromExisting_def AddStreamPair_def map_erase_def DestroyClosedStreams_def
      has_streams_def CloseAllConnections_def Reset_def Let_def)

text \<open>
  C4, amended: in a run of the client without Stop, the instance ids issued on handshake
  completion are consecutive numbers from the value of the counter at the start of the
  run, hence strictly increasing, never 0 and never reused, as long as the 64-bit
  counter does not wrap (it starts at 1 and moves by at most one per call). Stop
  resets the counter to 1, so ids are issued again after a restart.
\<close>

theorem C4_ids_increase_between_resets:
  assumes "issued_ids fac st cs = Some ids"
    and "Call_Stop \<notin> set cs"
    and "next_instance_number st \<noteq> 0"
    and "unat (next_instance_number st) + length cs < 2 ^ 64"
  shows "sorted_wrt (<) ids \<and> distinct ids \<and> 0 \<notin> set ids \<and>
         map unat ids = [unat (next_instance_number st) ..<
                          unat (next_instance_number st) + length ids]"
proof -
  from assms(1) obtain st1 evs where run: "client_run fac st cs = Returns (st1, evs, ids)"
    by (auto simp: issued_ids_def split: outcome.splits)
  have m: "map unat ids = [unat (next_instance_number st) ..<
                          unat (next_instance_number st) + length ids]"
    using client_run_ids [OF run assms(2,3,4)] by simp
  have "0 < unat (next_instance_number st)"
    using assms(3) by (simp add: unat_gt_0)
  with m show ?thesis using consecutive_words by blast
qed

theorem C4_ids_increase_between_resets_witness:
  "issued_ids example_factory (QuicClient_init [(0, 0)])
     [Call_OnReceiverAdded (example_info ''X''), Call_OnReceiverAdded (example_info ''Y''),
      Call_Start, Call_Connect ''X'' 0, Call_Connect ''Y'' 1,
      Call_OnCryptoHandshakeComplete ''Y'', Call_OnCryptoHandshakeComplete ''X'']
     = Some [1, 2] \<and>
   sorted_wrt (<) [1, 2 :: u64] \<and> distinct [1, 2 :: u64] \<and> 0 \<notin> set [1, 2 :: u64]"
proof -
  let ?cs = "[Call_OnReceiverAdded (example_info ''X''), Call_OnReceiverAdded (example_info ''Y''),
      Call_Start, Call_Connect ''X'' 0, Call_Connect ''Y'' 1,
      Call_OnCryptoHandshakeComplete ''Y'', Call_OnCryptoHandshakeComplete ''X'']"
  have ids: "issued_ids example_factory (QuicClient_init [(0, 0)]) ?cs = Some [1, 2]"
    by (simp add: issued_ids_def example_factory_def example_info_def QuicClient_init_def
      OnReceiverAdded_def Start_def Cleanup_def Connect_def
      CreatePendingConnection_def StartConnectionRequest_def map_find_def map_emplace_def
      map_modify_def ServiceConnectionData_new_def OnCryptoHandshakeComplete_def
      FromExisting_def AddStreamPair_def map_erase_def DestroyClosedStreams_def
      has_streams_def Let_def)
  have nostop: "Call_Stop \<notin> set ?cs" by simp
  have nz: "next_instance_number (QuicClient_init [(0, 0)]) \<noteq> 0"
    by (simp add: QuicClient_init_def)
  have nowrap: "unat (next_instance_number (QuicClient_init [(0, 0)])) + length ?cs < 2 ^ 64"
    by (simp add: QuicClient_init_def)
  show ?thesis
    using C4_ids_increase_between_resets [OF ids nostop nz nowrap] ids by simp
qed

section \<open>The counter is not in use\<close>

text \<open>
  That the next instance number is not a key of \<^verbatim>\<open>connections_\<close>, as the theorem on
  the handshake assumes, holds after every run from the initial state that is too short to wrap the 64-bit
  counter: every key of \<^verbatim>\<open>connections_\<close> stays below the counter.
\<close>

lemma map_find_None_iff: "map_find k m = None \<longleftrightarrow> k \<notin> map_keys m"
  by (simp add: map_find_def map_of_eq_None_iff map_keys_def)

lemma keys_below_fresh:
  "keys_below st \<Longrightarrow> map_find (next_instance_number st) (connections st) = None"
  by (auto simp: keys_below_def map_find_None_iff)

lemma keys_insert_sorted: "map_keys (insert_sorted k v m) = insert k (map_keys m)"
  by (induction m) (auto simp: map_keys_def)

lemma keys_emplace: "map_keys (map_emplace k v m) = insert k (map_keys m)"
  by (auto simp: map_emplace_def keys_insert_sorted map_find_None_iff)

lemma keys_erase: "map_keys (map_erase k m) \<subseteq> map_keys m"
  by (auto simp: map_erase_def map_keys_def)

lemma keys_modify: "map_keys (map_modify k f m) = map_keys m"
  by (induction m) (auto simp: map_modify_def map_keys_def)

lemma keys_erase_all: "erase_all ks m = Returns m1 \<Longrightarrow> map_keys m1 \<subseteq> map_keys m"
proof (induction ks arbitrary: m)
  case Nil
  then show ?case by simp
next
  case (Cons k ks)
  show ?case
  proof (cases "map_find k m")
    case None
    then show ?thesis using Cons by simp
  next
    case (Some d)
    then have "erase_all ks (map_erase k m) = Returns m1"
      using Cons.prems by (simp split: if_splits)
    then have "map_keys m1 \<subseteq> map_keys (map_erase k m)"
      by (rule Cons.IH)
    then show ?thesis using keys_erase [of k m] by blast
  qed
qed

lemma keys_Cleanup_connections: "map fst (fst (Cleanup_connections m)) = map fst m"
  by (induction m) (auto simp: Let_def split: prod.splits)

lemma Cleanup_keys:
  "Cleanup st = Returns (st1, evs) \<Longrightarrow>
     map_keys (connections st1) \<subseteq> map_keys (connections st) \<and>
     next_instance_number st1 = next_instance_number st"
proof -
  assume c: "Cleanup st = Returns (st1, evs)"
  obtain conns evs0 where cc: "Cleanup_connections (connections st) = (conns, evs0)"
    by (cases "Cleanup_connections (connections st)")
  have "map fst conns = map fst (connections st)"
    using keys_Cleanup_connections [of "connections st"] cc by simp
  then have "set (map fst conns) = set (map fst (connections st))"
    by (rule arg_cong)
  then have k: "map_keys conns = map_keys (connections st)"
    by (simp add: map_keys_def)
  have "erase_all (delete_connections st) conns = Returns (connections st1)"
    and n: "next_instance_number st1 = next_instance_number st"
    using c cc by (auto simp: Cleanup_def split: outcome.splits)
  then have "map_keys (connections st1) \<subseteq> map_keys conns"
    using keys_erase_all by blast
  then show ?thesis using k n by simp
qed

lemma keys_below_subset:
  "keys_below st \<Longrightarrow> map_keys (connections st1) \<subseteq> map_keys (connections st) \<Longrightarrow>
     next_instance_number st1 = next_instance_number st \<Longrightarrow> keys_below st1"
  unfolding keys_below_def by auto

lemma word_less_inc:
  fixes k n :: u64
  assumes "k < n \<or> k = n" and "unat n + 1 < 2 ^ 64"
  shows "k < n + 1"
proof -
  have u: "unat (n + 1) = unat n + 1"
    using assms(2) unat_add_lem [of n 1] by simp
  have "unat k \<le> unat n"
    using assms(1) by (auto simp: word_less_nat_alt)
  then have "unat k < unat (n + 1)"
    using u by simp
  then show ?thesis by (simp add: word_less_nat_alt)
qed

lemma CreateProtocolConnection_keys:
  "CreateProtocolConnection st n = Some (pc, st1) \<Longrightarrow>
     map_keys (connections st1) = map_keys (connections st) \<and>
     next_instance_number st1 = next_instance_number st"
  by (auto simp: CreateProtocolConnection_def keys_modify
      split: if_splits option.splits prod.splits)

lemma StartConnectionRequest_keys:
  "StartConnectionRequest fac st name cb = Returns (r, st1, evs) \<Longrightarrow>
     connections st1 = connections st \<and> next_instance_number st1 = next_instance_number st"
  by (auto simp: StartConnectionRequest_def Let_def split: option.splits list.splits if_splits)

lemma CreatePendingConnection_keys:
  "CreatePendingConnection fac st name cb = Returns (r, st1, evs) \<Longrightarrow>
     connections st1 = connections st \<and> next_instance_number st1 = next_instance_number st"
  by (auto simp: CreatePendingConnection_def Let_def
      dest: StartConnectionRequest_keys
      split: option.splits outcome.splits if_splits)

lemma Connect_keys:
  assumes "Connect fac st name cb = Returns (r, st1, evs)"
  shows "map_keys (connections st1) = map_keys (connections st) \<and>
     next_instance_number st1 = next_instance_number st"
proof (cases "state st \<noteq> Client_kRunning")
  case True
  then show ?thesis using assms by (simp add: Connect_def)
next
  case running: False
  show ?thesis
  proof (cases "instance_map st name")
    case None
    then have "CreatePendingConnection fac st name cb = Returns (r, st1, evs)"
      using assms running by (simp add: Connect_def)
    then show ?thesis using CreatePendingConnection_keys by fastforce
  next
    case (Some n)
    show ?thesis
    proof (cases "CreateProtocolConnection st n")
      case None
      then show ?thesis using assms running Some by (simp add: Connect_def)
    next
      case created: (Some res)
      obtain pc st2 where res: "res = (pc, st2)" by (cases res)
      have "st1 = st2\<lparr>next_request_id := next_request_id st2 + 1\<rparr>"
        using assms running Some created res by (simp add: Connect_def Let_def)
      then show ?thesis
        using CreateProtocolConnection_keys [of st n pc st2] created res by simp
    qed
  qed
qed

lemma Start_keys:
  "Start st = Returns (r, st1, evs) \<Longrightarrow>
     map_keys (connections st1) \<subseteq> map_keys (connections st) \<and>
     next_instance_number st1 = next_instance_number st"
  by (auto simp: Start_def split: outcome.splits if_splits dest!: Cleanup_keys)

lemma Stop_keys_below:
  "Stop st = Returns (r, st1, evs) \<Longrightarrow> keys_below st \<Longrightarrow> keys_below st1"
  by (auto simp: keys_below_def map_keys_def dest!: Stop_cases)

lemma OnCryptoHandshakeComplete_keys_below:
  assumes "OnCryptoHandshakeComplete st name = Returns (n, st1, evs)"
    and inv: "keys_below st" and nowrap: "unat (next_instance_number st) + 1 < 2 ^ 64"
  shows "keys_below st1"
proof -
  have k: "map_keys (connections st1) \<subseteq> insert (next_instance_number st) (map_keys (connections st))"
    and n: "next_instance_number st1 = next_instance_number st
            \<and> map_keys (connections st1) \<subseteq> map_keys (connections st)
          \<or> next_instance_number st1 = next_instance_number st + 1"
    using assms(1)
    by (auto simp: OnCryptoHandshakeComplete_def Let_def keys_emplace
        split: prod.splits if_splits option.splits)
  show ?thesis
    unfolding keys_below_def
  proof
    fix x assume x: "x \<in> map_keys (connections st1)"
    from n show "x < next_instance_number st1"
    proof
      assume "next_instance_number st1 = next_instance_number st
            \<and> map_keys (connections st1) \<subseteq> map_keys (connections st)"
      then show ?thesis using x inv unfolding keys_below_def by auto
    next
      assume n1: "next_instance_number st1 = next_instance_number st + 1"
      from x k have "x = next_instance_number st \<or> x \<in> map_keys (connections st)" by blast
      then have "x < next_instance_number st \<or> x = next_instance_number st"
        using inv unfolding keys_below_def by blast
      then show ?thesis using word_less_inc [OF _ nowrap] n1 by simp
    qed
  qed
qed

lemma client_step_keys_below:
  assumes step: "client_step fac st c = Returns (st1, evs, ids)"
    and inv: "keys_below st" and nowrap: "unat (next_instance_number st) + 1 < 2 ^ 64"
  shows "keys_below st1"
proof (cases c)
  case Call_Start
  then show ?thesis using step inv
    by (auto split: outcome.splits dest!: Start_keys intro: keys_below_subset)
next
  case Call_Stop
  then show ?thesis using step inv
    by (auto split: outcome.splits dest: Stop_keys_below)
next
  case Call_Cleanup
  then show ?thesis using step inv
    by (auto split: outcome.splits dest!: Cleanup_keys intro: keys_below_subset)
next
  case (Call_Connect name cb)
  then show ?thesis using step inv
    by (auto split: outcome.splits dest!: Connect_keys intro: keys_below_subset)
next
  case (Call_CreateProtocolConnection n)
  then show ?thesis using step inv
    by (auto split: option.splits dest!: CreateProtocolConnection_keys intro: keys_below_subset)
next
  case (Call_CancelConnectRequest r)
  then show ?thesis using step inv by (auto simp: CancelConnectRequest_def keys_below_def)
next
  case (Call_OnCryptoHandshakeComplete name)
  then show ?thesis using step inv nowrap
    by (auto split: outcome.splits dest: OnCryptoHandshakeComplete_keys_below)
next
  case (Call_OnConnectionClosed n)
  then show ?thesis using step inv
    by (auto simp: OnConnectionClosed_def keys_below_def split: option.splits)
next
  case (Call_OnStreamClose n sid)
  then have "map_keys (connections st1) = map_keys (connections st)"
    "next_instance_number st1 = next_instance_number st"
    using step by (auto simp: OnStreamClose_def keys_modify)
  then show ?thesis using inv keys_below_subset by blast
next
  case (Call_OnReceiverAdded info)
  then show ?thesis using step inv by (auto simp: OnReceiverAdded_def keys_below_def split: if_splits)
next
  case (Call_OnReceiverChanged info)
  then show ?thesis using step inv by (auto simp: OnReceiverChanged_def keys_below_def)
next
  case (Call_OnReceiverRemoved info)
  then show ?thesis using step inv by (auto simp: OnReceiverRemoved_def keys_below_def)
next
  case Call_OnAllReceiversRemoved
  then show ?thesis using step inv by (auto simp: OnAllReceiversRemoved_def keys_below_def)
qed


lemma Stop_counter:
  "Stop st = Returns (r, st1, evs) \<Longrightarrow>
     next_instance_number st1 = next_instance_number st \<or> next_instance_number st1 = 1"
  by (cases "state st = Client_kStopped") (auto simp: Stop_result, simp add: Stop_def)

lemma client_step_counter_bound:
  assumes step: "client_step fac st c = Returns (st1, evs, ids)"
    and nowrap: "unat (next_instance_number st) + 1 < 2 ^ 64"
  shows "unat (next_instance_number st1) \<le> unat (next_instance_number st) + 1"
proof -
  have "next_instance_number st1 = next_instance_number st \<or>
        next_instance_number st1 = next_instance_number st + 1 \<or>
        next_instance_number st1 = 1"
  proof (cases c)
    case Call_Start
    then show ?thesis using step by (auto dest: Start_counter split: outcome.splits)
  next
    case Call_Stop
    then show ?thesis using step by (auto dest: Stop_counter split: outcome.splits)
  next
    case Call_Cleanup
    then show ?thesis using step by (auto dest: Cleanup_counter split: outcome.splits)
  next
    case (Call_Connect name cb)
    then show ?thesis using step by (auto dest: Connect_counter split: outcome.splits)
  next
    case (Call_CreateProtocolConnection k)
    then show ?thesis using step
      by (auto dest: CreateProtocolConnection_counter split: option.splits)
  next
    case (Call_CancelConnectRequest r)
    then show ?thesis using step by (auto simp: CancelConnectRequest_def)
  next
    case (Call_OnCryptoHandshakeComplete name)
    then show ?thesis using step
      by (auto dest: OnCryptoHandshakeComplete_counter split: outcome.splits)
  next
    case (Call_OnConnectionClosed k)
    then show ?thesis using step by (auto simp: OnConnectionClosed_def split: option.splits)
  next
    case (Call_OnStreamClose k sid)
    then show ?thesis using step by (auto simp: OnStreamClose_def)
  next
    case (Call_OnReceiverAdded info)
    then show ?thesis using step by (auto simp: OnReceiverAdded_def split: if_splits)
  next
    case (Call_OnReceiverChanged info)
    then show ?thesis using step by (auto simp: OnReceiverChanged_def)
  next
    case (Call_OnReceiverRemoved info)
    then show ?thesis using step by (auto simp: OnReceiverRemoved_def)
  next
    case Call_OnAllReceiversRemoved
    then show ?thesis using step by (auto simp: OnAllReceiversRemoved_def)
  qed
  moreover have "unat (next_instance_number st + 1) = unat (next_instance_number st) + 1"
    using nowrap unat_add_lem [of "next_instance_number st" 1] by simp
  ultimately show ?thesis by auto
qed

lemma client_run_keys_below:
  "client_run fac st cs = Returns (st1, evs, ids) \<Longrightarrow> keys_below st \<Longrightarrow>
   unat (next_instance_number st) + length cs < 2 ^ 64 \<Longrightarrow> keys_below st1"
proof (induction cs arbitrary: st st1 evs ids)
  case Nil
  then show ?case by simp
next
  case (Cons c cs)
  from Cons.prems(1) obtain sta evsa idsa stb evsb idsb where
    step: "client_step fac st c = Returns (sta, evsa, idsa)"
    and run: "client_run fac sta cs = Returns (stb, evsb, idsb)"
    and st1: "st1 = stb"
    by (auto split: outcome.splits)
  have nowrap: "unat (next_instance_number st) + 1 < 2 ^ 64"
    using Cons.prems(3) by simp
  have inv: "keys_below sta"
    using client_step_keys_below [OF step Cons.prems(2) nowrap] .
  have "unat (next_instance_number sta) + length cs < 2 ^ 64"
    using client_step_counter_bound [OF step nowrap] Cons.prems(3) by simp
  then show ?case using Cons.IH [OF run inv] st1 by simp
qed

lemma counter_fresh_after_run:
  assumes "client_run fac (QuicClient_init endpoints) cs = Returns (st, evs, ids)"
    and "length cs + 1 < 2 ^ 64"
  shows "map_find (next_instance_number st) (connections st) = None"
proof -
  have "keys_below (QuicClient_init endpoints)"
    by (simp add: keys_below_def QuicClient_init_def map_keys_def)
  moreover have "unat (next_instance_number (QuicClient_init endpoints)) + length cs < 2 ^ 64"
    using assms(2) by (simp add: QuicClient_init_def)
  ultimately have "keys_below st"
    using client_run_keys_below [OF assms(1)] by blast
  then show ?thesis by (rule keys_below_fresh)
qed

section \<open>Cancellation and the instance map\<close>

text \<open>
  What \<^verbatim>\<open>CancelConnectRequest\<close> does to the table: where the request id is a waiter of
  the entry \<open>name\<close> and of no other entry, and no other entry is without waiters, the
  loop removes that waiter from the entry and leaves every other waiter and entry as it
  is; if no waiter is left on the entry, the entry is erased.
\<close>

lemma filter_unchanged:
  "request_id \<notin> fst ` set cbs \<Longrightarrow> filter (\<lambda>callback. \<not> request_id = fst callback) cbs = cbs"
  by (induction cbs) auto

lemma filter_shrinks:
  "request_id \<in> fst ` set cbs \<Longrightarrow>
     length (filter (\<lambda>callback. \<not> request_id = fst callback) cbs) < length cbs"
proof (induction cbs)
  case Nil
  then show ?case by simp
next
  case (Cons a cbs)
  show ?case
  proof (cases "request_id = fst a")
    case True
    then show ?thesis by (simp add: less_Suc_eq_le)
  next
    case False
    then have "request_id \<in> fst ` set cbs" using Cons.prems by auto
    then show ?thesis using Cons.IH False by simp
  qed
qed

lemma map_erase_Cons:
  "map_erase k ((k', v) # m) = (if k' = k then map_erase k m else (k', v) # map_erase k m)"
  by (simp add: map_erase_def)

lemma map_modify_Cons:
  "map_modify k f ((k', v) # m) =
     (if k' = k then (k', f v) # map_modify k f m else (k', v) # map_modify k f m)"
  by (simp add: map_modify_def)

lemma map_erase_absent: "k \<notin> fst ` set m \<Longrightarrow> map_erase k m = m"
  by (induction m) (auto simp: map_erase_def)

lemma map_modify_absent: "k \<notin> fst ` set m \<Longrightarrow> map_modify k f m = m"
  by (induction m) (auto simp: map_modify_def)

lemma cancel_loop_removes_waiter:
  assumes "distinct (map fst m)"
    and "map_find name m = Some p"
    and "request_id \<in> fst ` set (callbacks p)"
    and "\<forall>e \<in> set m. fst e \<noteq> name \<longrightarrow>
           request_id \<notin> fst ` set (callbacks (snd e)) \<and> callbacks (snd e) \<noteq> []"
  shows "cancel_loop request_id m =
     (if filter (\<lambda>callback. \<not> request_id = fst callback) (callbacks p) = []
      then map_erase name m
      else map_modify name
             (\<lambda>q. q\<lparr>callbacks := filter (\<lambda>callback. \<not> request_id = fst callback) (callbacks q)\<rparr>)
             m)"
  using assms
proof (induction m)
  case Nil
  then show ?case by (simp add: map_find_def)
next
  case (Cons e m)
  obtain n q where e: "e = (n, q)" by (cases e)
  show ?case
  proof (cases "n = name")
    case True
    then have q: "q = p" using Cons.prems(2) e by (simp add: map_find_def)
    have absent: "name \<notin> fst ` set m" using Cons.prems(1) e True by auto
    show ?thesis
      using filter_shrinks [OF Cons.prems(3)] absent
      by (simp add: e True q map_erase_Cons map_modify_Cons Let_def
          map_erase_absent map_modify_absent)
  next
    case False
    then have keep: "filter (\<lambda>callback. \<not> request_id = fst callback) (callbacks q) = callbacks q"
      and ne: "callbacks q \<noteq> []"
      using Cons.prems(4) e filter_unchanged by auto
    have find: "map_find name m = Some p"
      using Cons.prems(2) e False by (simp add: map_find_def)
    have IH: "cancel_loop request_id m =
     (if filter (\<lambda>callback. \<not> request_id = fst callback) (callbacks p) = []
      then map_erase name m
      else map_modify name
             (\<lambda>q. q\<lparr>callbacks := filter (\<lambda>callback. \<not> request_id = fst callback) (callbacks q)\<rparr>)
             m)"
      using Cons.IH [OF _ find Cons.prems(3)] Cons.prems(1,4) by simp
    show ?thesis
      using False ne by (simp add: e keep IH map_erase_Cons map_modify_Cons Let_def)
  qed
qed


lemma example_client_one_waiter_fields:
  "state example_client_one_waiter = Client_kRunning"
  "pending_connections example_client_one_waiter =
     [(''X'', \<lparr>data = ServiceConnectionData_new 0 ''X'', callbacks = [(1, 0)]\<rparr>)]"
  "connections example_client_one_waiter = []"
  by (simp_all add: example_client_one_waiter_def client_after_def example_factory_def
      example_info_def QuicClient_init_def OnReceiverAdded_def Start_def Cleanup_def
      Connect_def CreatePendingConnection_def StartConnectionRequest_def map_find_def
      map_emplace_def map_modify_def Let_def)

text \<open>
  C5 at a concrete input: the client has one pending connection (the connection object
  0) with the single waiter of request id 1. Cancelling request 1 erases the pending
  entry, and with it the connection object, but calls \<^verbatim>\<open>Close\<close> on no connection, whereas
  \<^verbatim>\<open>CloseAllConnections\<close> in the same state calls \<^verbatim>\<open>Close\<close> on connection 0 before it
  clears the table.
\<close>

theorem C5_cancel_last_waiter_does_not_close:
  "pending_connections example_client_one_waiter =
     [(''X'', \<lparr>data = ServiceConnectionData_new 0 ''X'', callbacks = [(1, 0)]\<rparr>)] \<and>
   CancelConnectRequest example_client_one_waiter 1 =
     (example_client_one_waiter\<lparr>pending_connections := []\<rparr>, []) \<and>
   ConnectionClose 0 \<in> set (snd (CloseAllConnections example_client_one_waiter))"
  by (simp add: CancelConnectRequest_def CloseAllConnections_def
      example_client_one_waiter_fields ServiceConnectionData_new_def)

text \<open>
  The connection to "X" of the run below has the stream 0, made for the waiter when the
  handshake completed. A clean-up that erases the record of a connection while the
  stream is still there fails the check of the destructor.
\<close>

lemma Cleanup_with_open_stream_fails_check:
  "client_run example_factory (QuicClient_init [(0, 0)])
     [Call_OnReceiverAdded (example_info ''X''), Call_Start, Call_Connect ''X'' 0,
      Call_OnCryptoHandshakeComplete ''X'', Call_OnConnectionClosed 1, Call_Cleanup]
     = CheckFailed"
  by (simp add: example_factory_def example_info_def QuicClient_init_def
      OnReceiverAdded_def Start_def Cleanup_def Connect_def
      CreatePendingConnection_def StartConnectionRequest_def map_find_def map_emplace_def
      map_modify_def ServiceConnectionData_new_def OnCryptoHandshakeComplete_def
      FromExisting_def AddStreamPair_def map_erase_def DestroyClosedStreams_def
      has_streams_def destructor_check_def OnConnectionClosed_def ResetRequestId_def
      Let_def)

text \<open>
  C9 at a concrete input: after the handshake with "X" the instance map sends "X" to the
  instance number 1. The stream of the connection is closed, then the connection is
  closed, and the next clean-up erases the record 1 of the established table (no stream
  is left, so the destructor passes its check), but the instance map keeps "X". The run
  up to here returns, and the client is running. The next connect request to "X" finds
  the name in the instance map and no connection under 1, and
  \<^verbatim>\<open>OSP_CHECK(immediate_result)\<close> fails.
\<close>

theorem C9_connect_after_close_fails_check:
  "issued_ids example_factory (QuicClient_init [(0, 0)]) example_close_run = Some [1] \<and>
   state (client_after example_factory (QuicClient_init [(0, 0)]) example_close_run)
     = Client_kRunning \<and>
   instance_map (client_after example_factory (QuicClient_init [(0, 0)]) example_close_run)
     ''X'' = Some 1 \<and>
   map_find 1
     (connections (client_after example_factory (QuicClient_init [(0, 0)]) example_close_run))
     = None \<and>
   Connect example_factory
     (client_after example_factory (QuicClient_init [(0, 0)]) example_close_run) ''X'' 1
     = CheckFailed \<and>
   client_run example_factory (QuicClient_init [(0, 0)])
     (example_close_run @ [Call_Connect ''X'' 1]) = CheckFailed"
  by (simp add: example_close_run_def issued_ids_def client_after_def example_factory_def
      example_info_def QuicClient_init_def
      OnReceiverAdded_def Start_def Cleanup_def Connect_def
      CreatePendingConnection_def StartConnectionRequest_def map_find_def map_emplace_def
      map_modify_def ServiceConnectionData_new_def OnCryptoHandshakeComplete_def
      FromExisting_def AddStreamPair_def map_erase_def DestroyClosedStreams_def
      has_streams_def destructor_check_def OnStreamClose_def OnClose_def
      OnConnectionClosed_def ResetRequestId_def
      CreateProtocolConnection_def Let_def)

end
